theory Spec2Isabelle
  imports Complex_Main "HOL-Library.Word" "HOL-Library.Log_Nat"
begin

section \<open>THE HOLD loop asset generator: numeric core\<close>

text \<open>
  The program \<^verbatim>\<open>generate-loops.py\<close> synthesises short audio loops with numpy.
  A waveform buffer (a one-dimensional array of finite double-precision numbers)
  is a \<open>real list\<close>. Two kinds of arithmetic are kept apart:
  \<^item> a product that the program converts to an integer (a sample count
    \<^verbatim>\<open>int(a * b)\<close>, a PCM sample \<^verbatim>\<open>(x * MAX_AMP).astype(np.int16)\<close>) is rounded to
    double precision first, as the machine does, since the integer depends on it;
  \<^item> the values of the samples themselves (ramps, oscillators, sums, quotients)
    are computed exactly.
  Every exception the source can raise on such inputs is a value of \<open>error\<close>; a
  function that can raise returns \<open>error + 'a\<close> with \<open>Inl\<close> for the exception.
\<close>

datatype error =
    ValueError | IndexError | ZeroDivisionError | OverflowError
  | FileNotFoundError | IsADirectoryError | WaveError | StructError

definition bind_err :: "error + 'a \<Rightarrow> ('a \<Rightarrow> error + 'b) \<Rightarrow> error + 'b" where
  "bind_err m f = (case m of Inl e \<Rightarrow> Inl e | Inr x \<Rightarrow> f x)"

text \<open>Module constants.\<close>

definition SAMPLE_RATE :: int where
  "SAMPLE_RATE = 48000"

definition BITS_PER_SAMPLE :: nat where
  "BITS_PER_SAMPLE = 16"


subsection \<open>Double-precision products\<close>

text \<open>Rounding to the nearest integer, ties to the even one.\<close>

definition round_half_even :: "real \<Rightarrow> int" where
  "round_half_even x =
     (let f = \<lfloor>x\<rfloor>; d = x - real_of_int f
      in if d < 1 / 2 then f else if 1 / 2 < d then f + 1 else if even f then f else f + 1)"

text \<open>
  The binary exponent of a non-zero number: the \<open>e\<close> with
  \<open>2\<^sup>e \<le> \<bar>x\<bar> < 2\<^sup>e\<^sup>+\<^sup>1\<close>, computed from the bit length of an integer.
\<close>

definition float_exponent :: "real \<Rightarrow> int" where
  "float_exponent x =
     (if 1 \<le> \<bar>x\<bar> then bitlen \<lfloor>\<bar>x\<bar>\<rfloor> - 1 else - bitlen (\<lceil>1 / \<bar>x\<bar>\<rceil> - 1))"

text \<open>
  IEEE 754 binary64 rounding (to nearest, ties to even) of an exact result: 53
  significant bits, the smallest normal exponent \<open>- 1022\<close> (below it the spacing
  stays \<open>2\<^sup>-\<^sup>1\<^sup>0\<^sup>7\<^sup>4\<close>). A rounded value is finite when
  its exponent is below \<open>1024\<close>; a rounded magnitude of \<open>2\<^sup>1\<^sup>0\<^sup>2\<^sup>4\<close> or more
  stands for an infinity.
\<close>

definition fl :: "real \<Rightarrow> real" where
  "fl x =
     (if x = 0 then 0
      else
        let e = max (float_exponent x) (- 1022);
            q = 2 powi (e - 52)
        in real_of_int (round_half_even (x / q)) * q)"

definition float_finite :: "real \<Rightarrow> bool" where
  "float_finite x \<longleftrightarrow> x = 0 \<or> float_exponent x < 1024"

definition float_mul :: "real \<Rightarrow> real \<Rightarrow> real" where
  "float_mul a b = fl (a * b)"

text \<open>
  Python's conversion of an \<^verbatim>\<open>int\<close> operand to \<^verbatim>\<open>float\<close> (OverflowError when the
  integer is too large), and the mixed products \<^verbatim>\<open>x * k\<close> and \<^verbatim>\<open>k * x\<close> of a float
  and an \<^verbatim>\<open>int\<close>.
\<close>

definition py_float :: "int \<Rightarrow> error + real" where
  "py_float k =
     (let x = fl (real_of_int k)
      in if float_finite x then Inr x else Inl OverflowError)"

definition float_times_int :: "real \<Rightarrow> int \<Rightarrow> error + real" where
  "float_times_int x k = bind_err (py_float k) (\<lambda>kf. Inr (float_mul x kf))"

definition int_times_float :: "int \<Rightarrow> real \<Rightarrow> error + real" where
  "int_times_float k x = bind_err (py_float k) (\<lambda>kf. Inr (float_mul kf x))"

subsection \<open>Python and numpy primitives\<close>

text \<open>
  Python's \<^verbatim>\<open>int(x)\<close> on a float truncates towards zero, and raises OverflowError
  on an infinity.
\<close>

definition trunc_zero :: "real \<Rightarrow> int" where
  "trunc_zero x = (if 0 \<le> x then \<lfloor>x\<rfloor> else \<lceil>x\<rceil>)"

definition py_int :: "real \<Rightarrow> error + int" where
  "py_int x = (if float_finite x then Inr (trunc_zero x) else Inl OverflowError)"

text \<open>
  \<^verbatim>\<open>np.linspace(start, stop, num, endpoint)\<close>: a negative \<open>num\<close> raises ValueError;
  otherwise sample \<open>k\<close> is \<open>k * step + start\<close> with
  \<open>step = (stop - start) / div\<close>, \<open>div = num - 1\<close> with the endpoint and \<open>num\<close>
  without; when \<open>div\<close> is not positive the index is multiplied by \<open>stop - start\<close>
  itself; with the endpoint and more than one sample the last sample is set to
  \<open>stop\<close>.
\<close>

definition linspace :: "real \<Rightarrow> real \<Rightarrow> int \<Rightarrow> bool \<Rightarrow> error + real list" where
  "linspace start stop num endpoint =
     (if num < 0 then Inl ValueError
      else
        let n = nat num;
            dv = (if endpoint then num - 1 else num);
            delta = stop - start;
            step = (if 0 < dv then delta / real_of_int dv else delta)
        in Inr (map (\<lambda>k. if endpoint \<and> 1 < num \<and> k = n - 1 then stop
                          else real k * step + start) [0..<n]))"

text \<open>
  Index normalisation of a slice bound on an array of length \<open>n\<close>: a negative bound
  counts from the end, and bounds are clipped to \<open>[0, n]\<close>. In particular the
  bound \<open>-0\<close> is \<open>0\<close>.
\<close>

definition clip_index :: "nat \<Rightarrow> int \<Rightarrow> nat" where
  "clip_index n i = (if i < 0 then nat (max 0 (int n + i)) else min n (nat i))"

definition slice_bounds :: "nat \<Rightarrow> int option \<Rightarrow> int option \<Rightarrow> nat \<times> nat" where
  "slice_bounds n start stop =
     (let lo = (case start of None \<Rightarrow> 0 | Some i \<Rightarrow> clip_index n i);
          hi = (case stop of None \<Rightarrow> n | Some j \<Rightarrow> clip_index n j)
      in (lo, max lo hi))"

text \<open>
  Broadcasting a one-dimensional operand \<open>v\<close> onto a target of length \<open>L\<close> that
  cannot itself be resized (the target of an in-place operation or of an
  assignment): the lengths agree, or \<open>v\<close> has exactly one element, or numpy raises
  ValueError.
\<close>

definition broadcast_to :: "nat \<Rightarrow> real list \<Rightarrow> error + real list" where
  "broadcast_to L v =
     (if length v = L then Inr v
      else if length v = 1 then Inr (replicate L (hd v))
      else Inl ValueError)"

text \<open>\<^verbatim>\<open>a[start:stop] *= v\<close>: the new contents of \<open>a\<close>.\<close>

definition slice_imul :: "real list \<Rightarrow> int option \<Rightarrow> int option \<Rightarrow> real list \<Rightarrow> error + real list" where
  "slice_imul a start stop v =
     (case slice_bounds (length a) start stop of (lo, hi) \<Rightarrow>
        (case broadcast_to (hi - lo) v of
           Inl e \<Rightarrow> Inl e
         | Inr v' \<Rightarrow> Inr (take lo a @ map2 (*) (take (hi - lo) (drop lo a)) v' @ drop hi a)))"

text \<open>\<^verbatim>\<open>a[start:stop] = v\<close>: the new contents of \<open>a\<close>.\<close>

definition slice_assign :: "real list \<Rightarrow> int option \<Rightarrow> int option \<Rightarrow> real list \<Rightarrow> error + real list" where
  "slice_assign a start stop v =
     (case slice_bounds (length a) start stop of (lo, hi) \<Rightarrow>
        (case broadcast_to (hi - lo) v of
           Inl e \<Rightarrow> Inl e
         | Inr v' \<Rightarrow> Inr (take lo a @ v' @ drop hi a)))"

text \<open>\<^verbatim>\<open>a += v\<close> on whole arrays: the new contents of \<open>a\<close>.\<close>

definition iadd :: "real list \<Rightarrow> real list \<Rightarrow> error + real list" where
  "iadd a v =
     (case broadcast_to (length a) v of
        Inl e \<Rightarrow> Inl e
      | Inr v' \<Rightarrow> Inr (map2 (+) a v'))"

text \<open>
  \<^verbatim>\<open>a * b\<close> on two arrays, allocating the result: equal lengths multiply
  elementwise, a one-element operand is broadcast, anything else raises.
\<close>

definition np_mul :: "real list \<Rightarrow> real list \<Rightarrow> error + real list" where
  "np_mul a b =
     (if length a = length b then Inr (map2 (*) a b)
      else if length b = 1 then Inr (map (\<lambda>x. x * hd b) a)
      else if length a = 1 then Inr (map (\<lambda>y. hd a * y) b)
      else Inl ValueError)"

text \<open>\<^verbatim>\<open>np.max\<close> of a one-dimensional array raises ValueError on the empty array.\<close>

definition np_max :: "real list \<Rightarrow> error + real" where
  "np_max a = (case a of [] \<Rightarrow> Inl ValueError | x # xs \<Rightarrow> Inr (fold max xs x))"

text \<open>
  \<^verbatim>\<open>a[mask] = vals\<close> with a boolean mask: the positions where the mask holds
  receive the values in order. The mask has the length of \<open>a\<close> (IndexError
  otherwise); the values are as many as the selected positions, or a single
  value that is broadcast (ValueError otherwise).
\<close>

fun mask_fill :: "real list \<Rightarrow> bool list \<Rightarrow> real list \<Rightarrow> real list" where
  "mask_fill [] ms vs = []"
| "mask_fill (x # xs) [] vs = x # xs"
| "mask_fill (x # xs) (True # ms) [] = x # mask_fill xs ms []"
| "mask_fill (x # xs) (True # ms) (v # vs) = v # mask_fill xs ms vs"
| "mask_fill (x # xs) (False # ms) vs = x # mask_fill xs ms vs"

definition np_sum_mask :: "bool list \<Rightarrow> int" where
  "np_sum_mask ms = int (length (filter id ms))"

definition mask_assign :: "real list \<Rightarrow> bool list \<Rightarrow> real list \<Rightarrow> error + real list" where
  "mask_assign a ms vs =
     (if length ms \<noteq> length a then Inl IndexError
      else
        (case broadcast_to (length (filter id ms)) vs of
           Inl e \<Rightarrow> Inl e
         | Inr vs' \<Rightarrow> Inr (mask_fill a ms vs')))"

subsection \<open>Waveform primitives\<close>

text \<open>
  \<^verbatim>\<open>t = np.linspace(0, duration, int(sample_rate * duration), False)\<close>, then the
  oscillator is evaluated at every \<open>t\<close>.
\<close>

definition generate_sine_wave :: "real \<Rightarrow> real \<Rightarrow> int \<Rightarrow> error + real list" where
  "generate_sine_wave freq duration sample_rate =
     bind_err (int_times_float sample_rate duration) (\<lambda>p.
     bind_err (py_int p) (\<lambda>num.
     bind_err (linspace 0 duration num False) (\<lambda>t.
       Inr (map (\<lambda>x. sin (2 * pi * freq * x)) t))))"

definition generate_triangle_wave :: "real \<Rightarrow> real \<Rightarrow> int \<Rightarrow> error + real list" where
  "generate_triangle_wave freq duration sample_rate =
     bind_err (int_times_float sample_rate duration) (\<lambda>p.
     bind_err (py_int p) (\<lambda>num.
     bind_err (linspace 0 duration num False) (\<lambda>t.
       Inr (map (\<lambda>x. 2 * arcsin (sin (2 * pi * freq * x)) / pi) t))))"

subsection \<open>Shaping utilities\<close>

text \<open>
  The statements of \<^verbatim>\<open>apply_fade\<close> after \<^verbatim>\<open>fade_samples\<close> is known, on the
  contents of the buffer: both ramps are multiplied into slices of the same
  buffer, the second on the result of the first.
\<close>

definition apply_fade_with :: "real list \<Rightarrow> int \<Rightarrow> error + real list" where
  "apply_fade_with waveform fade_samples =
     (case linspace 0 1 fade_samples True of
        Inl e \<Rightarrow> Inl e
      | Inr fade_in \<Rightarrow>
          (case slice_imul waveform None (Some fade_samples) fade_in of
             Inl e \<Rightarrow> Inl e
           | Inr w1 \<Rightarrow>
               (case linspace 1 0 fade_samples True of
                  Inl e \<Rightarrow> Inl e
                | Inr fade_out \<Rightarrow> slice_imul w1 (Some (- fade_samples)) None fade_out)))"

text \<open>\<^verbatim>\<open>apply_fade\<close>, with \<^verbatim>\<open>fade_samples = int(fade_duration * sample_rate)\<close>.\<close>

definition apply_fade :: "real list \<Rightarrow> real \<Rightarrow> int \<Rightarrow> error + real list" where
  "apply_fade waveform fade_duration sample_rate =
     bind_err (float_times_int fade_duration sample_rate) (\<lambda>p.
     bind_err (py_int p) (\<lambda>fade_samples.
       apply_fade_with waveform fade_samples))"

text \<open>
  The statements of \<^verbatim>\<open>apply_envelope\<close> after the two sample counts are known: the
  envelope is a fresh array of ones, the ramps are assigned into it under the two
  guards, and the result is the product \<^verbatim>\<open>waveform * envelope\<close>.
\<close>

definition apply_envelope_with :: "real list \<Rightarrow> int \<Rightarrow> int \<Rightarrow> error + real list" where
  "apply_envelope_with waveform attack_samples release_samples =
     (let envelope = replicate (length waveform) 1
      in
      case (if 0 < attack_samples
            then (case linspace 0 1 attack_samples True of
                    Inl e \<Rightarrow> Inl e
                  | Inr ramp \<Rightarrow> slice_assign envelope None (Some attack_samples) ramp)
            else Inr envelope) of
        Inl e \<Rightarrow> Inl e
      | Inr env1 \<Rightarrow>
          (case (if 0 < release_samples
                 then (case linspace 1 0 release_samples True of
                         Inl e \<Rightarrow> Inl e
                       | Inr ramp \<Rightarrow> slice_assign env1 (Some (- release_samples)) None ramp)
                 else Inr env1) of
             Inl e \<Rightarrow> Inl e
           | Inr env2 \<Rightarrow> np_mul waveform env2))"

text \<open>
  \<^verbatim>\<open>apply_envelope\<close>, with \<^verbatim>\<open>attack_samples = int(attack * sample_rate)\<close> and
  \<^verbatim>\<open>release_samples = int(release * sample_rate)\<close>, both computed first.
\<close>

definition apply_envelope :: "real list \<Rightarrow> real \<Rightarrow> real \<Rightarrow> int \<Rightarrow> error + real list" where
  "apply_envelope waveform attack release sample_rate =
     bind_err (float_times_int attack sample_rate) (\<lambda>pa.
     bind_err (py_int pa) (\<lambda>attack_samples.
     bind_err (float_times_int release sample_rate) (\<lambda>pr.
     bind_err (py_int pr) (\<lambda>release_samples.
       apply_envelope_with waveform attack_samples release_samples))))"

subsection \<open>The store of array objects\<close>

text \<open>
  Where aliasing matters, array objects live in a store: \<open>cells h r\<close> is the
  contents of the array with reference \<open>r\<close>, and the references below
  \<open>next_ref h\<close> are the allocated ones. A call returns its outcome (an exception
  or the reference of the returned array) together with the store it leaves.
\<close>

record heap =
  cells :: "nat \<Rightarrow> real list"
  next_ref :: nat

definition store :: "heap \<Rightarrow> nat \<Rightarrow> real list \<Rightarrow> heap" where
  "store h r v = h\<lparr>cells := (cells h)(r := v)\<rparr>"

definition alloc :: "heap \<Rightarrow> real list \<Rightarrow> nat \<times> heap" where
  "alloc h v = (next_ref h, \<lparr>cells = (cells h)(next_ref h := v), next_ref = Suc (next_ref h)\<rparr>)"

text \<open>
  \<^verbatim>\<open>apply_fade\<close> statement by statement: the two \<^verbatim>\<open>*=\<close> write through slices
  (views) of the argument array, and the argument itself is returned.
\<close>

definition apply_fade_heap_with :: "heap \<Rightarrow> nat \<Rightarrow> int \<Rightarrow> (error + nat) \<times> heap" where
  "apply_fade_heap_with h waveform fade_samples =
     (case linspace 0 1 fade_samples True of
        Inl e \<Rightarrow> (Inl e, h)
      | Inr fade_in \<Rightarrow>
          (case slice_imul (cells h waveform) None (Some fade_samples) fade_in of
             Inl e \<Rightarrow> (Inl e, h)
           | Inr w1 \<Rightarrow>
               (let h1 = store h waveform w1 in
                case linspace 1 0 fade_samples True of
                  Inl e \<Rightarrow> (Inl e, h1)
                | Inr fade_out \<Rightarrow>
                    (case slice_imul (cells h1 waveform) (Some (- fade_samples)) None fade_out of
                       Inl e \<Rightarrow> (Inl e, h1)
                     | Inr w2 \<Rightarrow> (Inr waveform, store h1 waveform w2)))))"

definition apply_fade_heap :: "heap \<Rightarrow> nat \<Rightarrow> real \<Rightarrow> int \<Rightarrow> (error + nat) \<times> heap" where
  "apply_fade_heap h waveform fade_duration sample_rate =
     (case bind_err (float_times_int fade_duration sample_rate) py_int of
        Inl e \<Rightarrow> (Inl e, h)
      | Inr fade_samples \<Rightarrow> apply_fade_heap_with h waveform fade_samples)"

text \<open>
  \<^verbatim>\<open>apply_envelope\<close>: the envelope is a local array; the returned array is the
  newly allocated product, and nothing is written to the argument.
\<close>

definition apply_envelope_heap :: "heap \<Rightarrow> nat \<Rightarrow> real \<Rightarrow> real \<Rightarrow> int \<Rightarrow> (error + nat) \<times> heap" where
  "apply_envelope_heap h waveform attack release sample_rate =
     (case apply_envelope (cells h waveform) attack release sample_rate of
        Inl e \<Rightarrow> (Inl e, h)
      | Inr product \<Rightarrow> (case alloc h product of (r, h') \<Rightarrow> (Inr r, h')))"

subsection \<open>Mixing and normalisation\<close>

text \<open>The loop \<^verbatim>\<open>for wave, gain in zip(waveforms, gains): mixed += wave * gain\<close>.\<close>

fun mix_loop :: "real list \<Rightarrow> (real list \<times> real) list \<Rightarrow> error + real list" where
  "mix_loop mixed [] = Inr mixed"
| "mix_loop mixed ((wave, gain) # rest) =
     (case iadd mixed (map (\<lambda>x. x * gain) wave) of
        Inl e \<Rightarrow> Inl e
      | Inr mixed' \<Rightarrow> mix_loop mixed' rest)"

text \<open>
  \<^verbatim>\<open>gains=None\<close> is \<open>None\<close>. The default gains divide by the number of voices
  (ZeroDivisionError without voices); \<^verbatim>\<open>waveforms[0]\<close> raises IndexError on an
  empty list.
\<close>

definition mix_waveforms :: "real list list \<Rightarrow> real list option \<Rightarrow> error + real list" where
  "mix_waveforms waveforms gains =
     (case (case gains of
              None \<Rightarrow>
                if length waveforms = 0 then Inl ZeroDivisionError
                else Inr (replicate (length waveforms) (1 / real (length waveforms)))
            | Some g \<Rightarrow> Inr g) of
        Inl e \<Rightarrow> Inl e
      | Inr gains' \<Rightarrow>
          (case waveforms of
             [] \<Rightarrow> Inl IndexError
           | w0 # _ \<Rightarrow> mix_loop (replicate (length w0) 0) (zip waveforms gains')))"

definition normalize_audio :: "real list \<Rightarrow> real \<Rightarrow> error + real list" where
  "normalize_audio waveform headroom =
     (case np_max (map abs waveform) of
        Inl e \<Rightarrow> Inl e
      | Inr peak \<Rightarrow>
          if 0 < peak then Inr (map (\<lambda>x. x / peak * headroom) waveform)
          else Inr waveform)"

subsection \<open>Serialisation\<close>

text \<open>
  \<^verbatim>\<open>astype(np.int16)\<close> on a double converts as the C cast does: the fraction is
  dropped (truncation towards zero) and the low 16 bits of the resulting 32-bit
  integer are kept. For a truncated value that does not fit 32 bits (an infinity
  included) the conversion instruction of x86-64 yields \<open>- 2\<^sup>3\<^sup>1\<close>, whose low 16
  bits are zero; other processors may differ there.
\<close>

definition astype_int16 :: "real \<Rightarrow> 16 word" where
  "astype_int16 x =
     (let k = trunc_zero x
      in if - (2 ^ 31) \<le> k \<and> k < 2 ^ 31 then word_of_int k else 0)"






subsection \<open>Loop generators\<close>

text \<open>
  The random source: \<open>rng k\<close> is the \<open>k\<close>-th number in \<open>[0, 1)\<close> that the
  process-global generator hands out, and \<^verbatim>\<open>np.random.uniform(low, high)\<close>
  scales one such number.
\<close>

definition uniform :: "real \<Rightarrow> real \<Rightarrow> real \<Rightarrow> real" where
  "uniform low high u = low + (high - low) * u"

text \<open>
  One pass of the loop body of \<^verbatim>\<open>generate_texture_loop\<close>, for the \<open>i\<close>-th tone:
  four draws in the order of the source (frequency, tone duration, tone start,
  pan).
\<close>

definition texture_tone :: "real \<Rightarrow> (nat \<Rightarrow> real) \<Rightarrow> nat \<Rightarrow> error + real list" where
  "texture_tone duration rng i =
     (let freq = uniform 200 800 (rng (4 * i));
          tone_duration = uniform 1 3 (rng (4 * i + 1));
          tone_start = uniform 0 (duration - tone_duration) (rng (4 * i + 2))
      in
      bind_err (generate_sine_wave freq duration SAMPLE_RATE) (\<lambda>tone.
      bind_err (apply_envelope tone (3 / 10) (3 / 10) SAMPLE_RATE) (\<lambda>tone.
        let pan = uniform (1 / 2) 1 (rng (4 * i + 3))
        in Inr (map (\<lambda>x. x * pan) tone))))"

fun texture_tones :: "real \<Rightarrow> (nat \<Rightarrow> real) \<Rightarrow> nat list \<Rightarrow> error + real list list" where
  "texture_tones duration rng [] = Inr []"
| "texture_tones duration rng (i # rest) =
     bind_err (texture_tone duration rng i) (\<lambda>tone.
     bind_err (texture_tones duration rng rest) (\<lambda>tones. Inr (tone # tones)))"

definition generate_texture_loop :: "real \<Rightarrow> (nat \<Rightarrow> real) \<Rightarrow> error + real list" where
  "generate_texture_loop duration rng =
     (let num_tones = 5 in
      bind_err (texture_tones duration rng [0..<num_tones]) (\<lambda>tones.
      bind_err (mix_waveforms tones None) (\<lambda>mixed.
      bind_err (apply_fade mixed (3 / 10) SAMPLE_RATE) (\<lambda>mixed.
        normalize_audio mixed (1 / 2)))))"

definition generate_breath_loop :: "real \<Rightarrow> error + real list" where
  "generate_breath_loop duration =
     (let base_freq = 216 in
      bind_err (int_times_float SAMPLE_RATE duration) (\<lambda>p.
      bind_err (py_int p) (\<lambda>num.
      bind_err (linspace 0 duration num False) (\<lambda>t.
        let breath_shape = replicate (length t) 0;
            inhale_mask = map (\<lambda>x. x < 4) t
        in
        bind_err (linspace 0 (1 / 2) (np_sum_mask inhale_mask) True) (\<lambda>rise.
        bind_err (mask_assign breath_shape inhale_mask rise) (\<lambda>breath_shape.
          let exhale_mask = map (\<lambda>x. 4 \<le> x \<and> x < 10) t
          in
          bind_err (linspace (1 / 2) 0 (np_sum_mask exhale_mask) True) (\<lambda>fall.
          bind_err (mask_assign breath_shape exhale_mask fall) (\<lambda>breath_shape.
          bind_err (generate_sine_wave base_freq duration SAMPLE_RATE) (\<lambda>carrier.
          bind_err (np_mul carrier breath_shape) (\<lambda>modulated.
          bind_err (apply_fade modulated 1 SAMPLE_RATE) (\<lambda>modulated.
            normalize_audio modulated (4 / 10))))))))))))"

section \<open>Properties\<close>

subsection \<open>The binary exponent\<close>

lemma powi_nonneg: "0 \<le> k \<Longrightarrow> (2 :: real) powi k = 2 ^ nat k"
  by (simp add: power_int_def)

lemma powi_neg: "0 \<le> k \<Longrightarrow> (2 :: real) powi (- k) = 1 / 2 ^ nat k"
  by (simp add: power_int_def field_simps power_inverse)

lemma float_exponent_bounds:
  assumes "x \<noteq> 0"
  shows "2 powi float_exponent x \<le> \<bar>x\<bar> \<and> \<bar>x\<bar> < 2 powi (float_exponent x + 1)"
proof (cases "1 \<le> \<bar>x\<bar>")
  case True
  let ?n = "\<lfloor>\<bar>x\<bar>\<rfloor>" and ?b = "bitlen \<lfloor>\<bar>x\<bar>\<rfloor>"
  from True have n: "0 < ?n" by linarith
  from bitlen_bounds[OF n] have lo: "2 ^ nat (?b - 1) \<le> ?n" and hi: "?n < 2 ^ nat ?b"
    by simp_all
  from n have b1: "1 \<le> ?b" by (simp add: bitlen_alt_def)
  from lo have "real_of_int (2 ^ nat (?b - 1)) \<le> real_of_int ?n" by (simp only: of_int_le_iff)
  also have "\<dots> \<le> \<bar>x\<bar>" by simp
  finally have l: "(2 :: real) ^ nat (?b - 1) \<le> \<bar>x\<bar>" by simp
  from hi have "?n + 1 \<le> 2 ^ nat ?b" by simp
  then have "real_of_int (?n + 1) \<le> real_of_int (2 ^ nat ?b)" by (simp only: of_int_le_iff)
  then have B: "real_of_int ?n + 1 \<le> 2 ^ nat ?b" by simp
  have A: "\<bar>x\<bar> < real_of_int ?n + 1" by linarith
  from A B have h: "\<bar>x\<bar> < (2 :: real) ^ nat ?b" by (rule less_le_trans)
  from True have e: "float_exponent x = ?b - 1" by (simp add: float_exponent_def)
  from b1 l h show ?thesis unfolding e by (simp add: powi_nonneg)
next
  case False
  let ?y = "1 / \<bar>x\<bar>"
  let ?m = "\<lceil>?y\<rceil> - 1" and ?b = "bitlen (\<lceil>1 / \<bar>x\<bar>\<rceil> - 1)"
  from False assms have x: "0 < \<bar>x\<bar>" "\<bar>x\<bar> < 1" by simp_all
  then have y1: "1 < ?y" by simp
  then have m: "0 < ?m" by linarith
  have my: "real_of_int ?m < ?y" "?y \<le> real_of_int ?m + 1" by linarith+
  from bitlen_bounds[OF m] have lo: "2 ^ nat (?b - 1) \<le> ?m" and hi: "?m < 2 ^ nat ?b"
    by simp_all
  from m have b1: "1 \<le> ?b" by (simp add: bitlen_alt_def)
  from lo have "real_of_int (2 ^ nat (?b - 1)) \<le> real_of_int ?m" by (simp only: of_int_le_iff)
  then have "(2 :: real) ^ nat (?b - 1) \<le> real_of_int ?m" by simp
  from this my(1) have l: "(2 :: real) ^ nat (?b - 1) < ?y" by (rule le_less_trans)
  from hi have "?m + 1 \<le> 2 ^ nat ?b" by simp
  then have "real_of_int (?m + 1) \<le> real_of_int (2 ^ nat ?b)" by (simp only: of_int_le_iff)
  then have "real_of_int ?m + 1 \<le> 2 ^ nat ?b" by simp
  with my(2) have h: "?y \<le> (2 :: real) ^ nat ?b" by (rule order_trans)
  from False have e: "float_exponent x = - ?b" by (simp add: float_exponent_def)
  from h x have 1: "1 / 2 ^ nat ?b \<le> \<bar>x\<bar>"
    by (simp add: field_simps)
  from l x have 2: "\<bar>x\<bar> < 1 / 2 ^ nat (?b - 1)"
    by (simp add: field_simps)
  from b1 have "0 \<le> ?b" "0 \<le> ?b - 1" by simp_all
  from powi_neg[OF this(1)] powi_neg[OF this(2)] 1 2 show ?thesis
    unfolding e by simp
qed

lemma float_finite_iff:
  "float_finite x \<longleftrightarrow> \<bar>x\<bar> < 2 ^ 1024"
proof (cases "x = 0")
  case True
  then show ?thesis by (simp add: float_finite_def)
next
  case False
  from float_exponent_bounds[OF False] have
    lo: "2 powi float_exponent x \<le> \<bar>x\<bar>" and hi: "\<bar>x\<bar> < 2 powi (float_exponent x + 1)"
    by simp_all
  have p: "(2 :: real) powi 1024 = 2 ^ 1024" by (simp add: power_int_def)
  show ?thesis
  proof
    assume "float_finite x"
    with False have "float_exponent x + 1 \<le> 1024" by (simp add: float_finite_def)
    then have "(2 :: real) powi (float_exponent x + 1) \<le> 2 powi 1024"
      by (intro power_int_increasing) simp_all
    with hi show "\<bar>x\<bar> < 2 ^ 1024" unfolding p by (rule less_le_trans)
  next
    assume a: "\<bar>x\<bar> < 2 ^ 1024"
    have "float_exponent x < 1024"
    proof (rule ccontr)
      assume "\<not> float_exponent x < 1024"
      then have "1024 \<le> float_exponent x" by simp
      then have "(2 :: real) powi 1024 \<le> 2 powi float_exponent x"
        by (intro power_int_increasing) simp_all
      from this lo have c: "(2 :: real) ^ 1024 \<le> \<bar>x\<bar>" unfolding p by (rule order_trans)
      from a have "\<not> (2 :: real) ^ 1024 \<le> \<bar>x\<bar>" by (simp only: not_le)
      from this c show False by (rule notE)
    qed
    then show "float_finite x" by (simp add: float_finite_def)
  qed
qed

subsection \<open>Errors and sample counts\<close>

lemma bind_err_simps:
  "bind_err (Inl e) f = Inl e" "bind_err (Inr x) f = f x"
  by (simp_all add: bind_err_def)

lemma bind_err_Inr:
  "bind_err m f = Inr y \<longleftrightarrow> (\<exists>x. m = Inr x \<and> f x = Inr y)"
  by (cases m) (simp_all add: bind_err_def)

lemma py_int_Inr: "py_int x = Inr k \<Longrightarrow> k = trunc_zero x \<and> float_finite x"
  by (auto simp: py_int_def split: if_splits)

lemma py_int_finite: "float_finite x \<Longrightarrow> py_int x = Inr (trunc_zero x)"
  by (simp add: py_int_def)

lemma float_finite_below_one:
  assumes "\<bar>x\<bar> < 1"
  shows "float_finite x"
proof -
  have "0 \<le> bitlen (\<lceil>1 / \<bar>x\<bar>\<rceil> - 1)" by (rule bitlen_nonneg)
  with assms show ?thesis by (simp add: float_finite_def float_exponent_def)
qed

lemma trunc_zero_floor: "0 \<le> x \<Longrightarrow> trunc_zero x = \<lfloor>x\<rfloor>"
  by (simp add: trunc_zero_def)

subsection \<open>Ramps and slices\<close>

lemma linspace_Inr:
  "0 \<le> num \<Longrightarrow> \<exists>t. linspace start stop num endpoint = Inr t \<and> length t = nat num"
  by (simp add: linspace_def Let_def)

lemma linspace_open_nth:
  assumes "linspace start stop num False = Inr t" and "k < length t"
  shows "t ! k = real k * ((stop - start) / real_of_int num) + start"
proof -
  from assms(1) have nn: "0 \<le> num"
    by (simp add: linspace_def split: if_splits)
  from assms(1) nn have len: "length t = nat num"
    by (auto simp: linspace_def Let_def)
  with assms(2) have pos: "0 < num" by simp
  from assms(1) nn have
    "t = map (\<lambda>k. real k * (if 0 < num then (stop - start) / real_of_int num else stop - start) + start)
           [0..<nat num]"
    by (auto simp: linspace_def Let_def)
  with assms(2) len pos show ?thesis by simp
qed

lemma clip_index_le: "clip_index n i \<le> n"
  unfolding clip_index_def by (cases "i < 0") auto

lemma slice_bounds_le:
  "slice_bounds n s e = (lo, hi) \<Longrightarrow> lo \<le> hi \<and> hi \<le> n"
  by (auto simp: slice_bounds_def Let_def clip_index_le split: option.splits)

lemma broadcast_to_length:
  "broadcast_to L v = Inr v' \<Longrightarrow> length v' = L"
  by (auto simp: broadcast_to_def split: if_splits)

lemma slice_imul_form:
  assumes "slice_imul a s e v = Inr a'" and "slice_bounds (length a) s e = (lo, hi)"
  shows "\<exists>v'. broadcast_to (hi - lo) v = Inr v' \<and>
     a' = take lo a @ map2 (*) (take (hi - lo) (drop lo a)) v' @ drop hi a"
  using assms by (auto simp: slice_imul_def split: sum.splits)

lemma splice_nth:
  assumes "lo \<le> hi" and "hi \<le> length a" and "length m = hi - lo" and "i < length a"
  shows "(take lo a @ m @ drop hi a) ! i =
     (if lo \<le> i \<and> i < hi then m ! (i - lo) else a ! i)"
proof -
  from assms have tl: "length (take lo a) = lo" by simp
  consider "i < lo" | "lo \<le> i" "i < hi" | "hi \<le> i" by linarith
  then show ?thesis
  proof cases
    case 1
    with assms show ?thesis by (simp add: nth_append)
  next
    case 2
    then have "i - lo < hi - lo" and "\<not> i < lo" by linarith+
    with 2 assms tl show ?thesis by (simp add: nth_append)
  next
    case 3
    with assms have a: "\<not> i < lo" and b: "\<not> i - lo < hi - lo" and c: "hi + (i - lo - (hi - lo)) = i"
      by linarith+
    from a b assms tl have "(take lo a @ m @ drop hi a) ! i = drop hi a ! (i - lo - (hi - lo))"
      by (simp add: nth_append)
    also from assms c have "\<dots> = a ! i" by simp
    finally show ?thesis using 3 by simp
  qed
qed

lemma segment_length:
  "lo \<le> hi \<Longrightarrow> hi \<le> length a \<Longrightarrow> length (take (hi - lo) (drop lo a)) = hi - lo"
  by simp

lemma splice_length:
  assumes "lo \<le> hi" and "hi \<le> length a" and "length m = hi - lo"
  shows "length (take lo a @ m @ drop hi a) = length a"
proof -
  from assms have "length (take lo a) = lo" by simp
  with assms show ?thesis by simp
qed

lemma slice_imul_length:
  assumes "slice_imul a s e v = Inr a'"
  shows "length a' = length a"
proof -
  obtain lo hi where b: "slice_bounds (length a) s e = (lo, hi)" by force
  from slice_imul_form[OF assms b] obtain v' where
    v: "broadcast_to (hi - lo) v = Inr v'" and
    a': "a' = take lo a @ map2 (*) (take (hi - lo) (drop lo a)) v' @ drop hi a" by blast
  from slice_bounds_le[OF b] have le: "lo \<le> hi" "hi \<le> length a" by simp_all
  have "length (map2 (*) (take (hi - lo) (drop lo a)) v') = hi - lo"
    using segment_length[OF le] broadcast_to_length[OF v] by simp
  from splice_length[OF le this] show ?thesis unfolding a' .
qed

lemma slice_imul_nth:
  assumes "slice_imul a s e v = Inr a'" and b: "slice_bounds (length a) s e = (lo, hi)"
    and i: "i < length a"
  shows "\<exists>v'. broadcast_to (hi - lo) v = Inr v' \<and>
     a' ! i = (if lo \<le> i \<and> i < hi then a ! i * v' ! (i - lo) else a ! i)"
proof -
  from slice_imul_form[OF assms(1) b] obtain v' where
    v: "broadcast_to (hi - lo) v = Inr v'" and
    a': "a' = take lo a @ map2 (*) (take (hi - lo) (drop lo a)) v' @ drop hi a" by blast
  from slice_bounds_le[OF b] have le: "lo \<le> hi" "hi \<le> length a" by simp_all
  note lv = broadcast_to_length[OF v]
  have lm: "length (map2 (*) (take (hi - lo) (drop lo a)) v') = hi - lo"
    using segment_length[OF le] lv by simp
  have "a' ! i = (if lo \<le> i \<and> i < hi
      then map2 (*) (take (hi - lo) (drop lo a)) v' ! (i - lo) else a ! i)"
    unfolding a' by (rule splice_nth[OF le lm i])
  moreover have "map2 (*) (take (hi - lo) (drop lo a)) v' ! (i - lo) = a ! i * v' ! (i - lo)"
    if "lo \<le> i" "i < hi"
  proof -
    from that have k: "i - lo < hi - lo" and e: "lo + (i - lo) = i" by linarith+
    from k segment_length[OF le] lv
    have "map2 (*) (take (hi - lo) (drop lo a)) v' ! (i - lo)
        = take (hi - lo) (drop lo a) ! (i - lo) * v' ! (i - lo)"
      by simp
    also from k e le i have "take (hi - lo) (drop lo a) ! (i - lo) = a ! i" by simp
    finally show ?thesis .
  qed
  ultimately show ?thesis using v by auto
qed

lemma linspace_length:
  "linspace start stop num endpoint = Inr t \<Longrightarrow> 0 \<le> num \<and> length t = nat num"
  by (auto simp: linspace_def Let_def split: if_splits)

lemma linspace_Inl:
  "linspace start stop num endpoint = Inl e \<Longrightarrow> num < 0 \<and> e = ValueError"
  by (auto simp: linspace_def Let_def split: if_splits)

lemma slice_bounds_head:
  "0 \<le> k \<Longrightarrow> slice_bounds n None (Some k) = (0, min n (nat k))"
  by (simp add: slice_bounds_def clip_index_def)

lemma slice_bounds_tail_zero:
  "slice_bounds n (Some (- 0)) None = (0, n)"
  by (simp add: slice_bounds_def clip_index_def)

lemma slice_bounds_tail:
  assumes "0 < k"
  shows "slice_bounds n (Some (- k)) None = (n - nat k, n)"
proof -
  from assms have "nat (max 0 (int n - k)) = n - nat k" by linarith
  with assms show ?thesis by (simp add: slice_bounds_def clip_index_def)
qed

lemma slice_imul_outside:
  assumes "slice_imul a s e v = Inr a'" and "slice_bounds (length a) s e = (lo, hi)"
    and "i < length a" and "i < lo \<or> hi \<le> i"
  shows "a' ! i = a ! i"
  using slice_imul_nth[OF assms(1-3)] assms(4) by auto

lemma slice_imul_zero:
  assumes "slice_imul a s e v = Inr a'" and "i < length a" and "a ! i = 0"
  shows "a' ! i = 0"
proof -
  obtain lo hi where b: "slice_bounds (length a) s e = (lo, hi)" by force
  from slice_imul_nth[OF assms(1) b assms(2)] assms(3) show ?thesis by auto
qed

lemma fade_in_frame:
  assumes "slice_imul w None (Some fs) fi = Inr w1" and "0 \<le> fs" and "fs \<le> int i"
    and "i < length w"
  shows "w1 ! i = w ! i"
proof -
  from assms(3,2) have "min (length w) (nat fs) \<le> i" by linarith
  with slice_imul_outside[OF assms(1) slice_bounds_head[OF assms(2)] assms(4)]
  show ?thesis by simp
qed

lemma fade_out_frame:
  assumes "slice_imul w1 (Some (- fs)) None fo = Inr w2" and "length fo = nat fs"
    and "0 \<le> fs" and "i < length w1" and "int i < int (length w1) - fs"
  shows "w2 ! i = w1 ! i"
proof (cases "fs = 0")
  case True
  with assms(1) have "slice_imul w1 (Some (- 0)) None fo = Inr w2" by simp
  from slice_imul_form[OF this slice_bounds_tail_zero] obtain v' where
    "broadcast_to (length w1 - 0) fo = Inr v'" by blast
  with True assms(2) have "length w1 = 0"
    by (auto simp: broadcast_to_def split: if_splits)
  with assms(4) show ?thesis by simp
next
  case False
  with assms(3) have pos: "0 < fs" by simp
  with assms(5) have "i < length w1 - nat fs" by linarith
  with slice_imul_outside[OF assms(1) slice_bounds_tail[OF pos] assms(4)]
  show ?thesis by simp
qed

subsection \<open>The fade on buffer contents\<close>

lemma apply_fade_with_steps:
  assumes "apply_fade_with w fs = Inr w'"
  shows "\<exists>fi w1 fo. 0 \<le> fs
    \<and> linspace 0 1 (fs) True = Inr fi
    \<and> slice_imul w None (Some (fs)) fi = Inr w1
    \<and> linspace 1 0 (fs) True = Inr fo
    \<and> slice_imul w1 (Some (- fs)) None fo = Inr w'"
  using assms
  by (auto simp: apply_fade_with_def split: sum.splits dest: linspace_length)

lemma apply_fade_with_length:
  assumes "apply_fade_with w fs = Inr w'"
  shows "length w' = length w"
proof -
  from apply_fade_with_steps[OF assms] obtain fi w1 fo where
    "slice_imul w None (Some (fs)) fi = Inr w1"
    "slice_imul w1 (Some (- fs)) None fo = Inr w'" by blast
  then show ?thesis by (simp add: slice_imul_length)
qed

lemma apply_fade_with_zero:
  assumes "apply_fade_with w fs = Inr w'" and "i < length w" and "w ! i = 0"
  shows "w' ! i = 0"
proof -
  from apply_fade_with_steps[OF assms(1)] obtain fi w1 fo where
    s1: "slice_imul w None (Some (fs)) fi = Inr w1" and
    s2: "slice_imul w1 (Some (- fs)) None fo = Inr w'" by blast
  from slice_imul_zero[OF s1 assms(2,3)] have "w1 ! i = 0" .
  moreover from assms(2) slice_imul_length[OF s1] have "i < length w1" by simp
  ultimately show ?thesis using slice_imul_zero[OF s2] by simp
qed

lemma slice_imul_Inr:
  assumes "slice_bounds (length a) s e = (lo, hi)" and "length v = hi - lo"
  shows "\<exists>a'. slice_imul a s e v = Inr a'"
  using assms by (simp add: slice_imul_def broadcast_to_def)

lemma apply_fade_with_Inr:
  assumes "0 < fs"
    and "fs \<le> int (length w)"
  shows "\<exists>w'. apply_fade_with w fs = Inr w'"
proof -
  from assms have nn: "0 \<le> fs" and pos: "0 < fs" by simp_all
  from linspace_Inr[OF nn] obtain fi where
    fi: "linspace 0 1 fs True = Inr fi" "length fi = nat fs" by blast
  from linspace_Inr[OF nn] obtain fo where
    fo: "linspace 1 0 fs True = Inr fo" "length fo = nat fs" by blast
  from assms have m: "min (length w) (nat fs) - 0 = nat fs" by linarith
  from slice_imul_Inr[OF slice_bounds_head[OF nn]] fi(2) m obtain w1 where
    w1: "slice_imul w None (Some fs) fi = Inr w1" by metis
  from slice_imul_length[OF w1] assms have "length w1 - (length w1 - nat fs) = nat fs"
    by linarith
  with slice_imul_Inr[OF slice_bounds_tail[OF pos]] fo(2) obtain w2 where
    "slice_imul w1 (Some (- fs)) None fo = Inr w2" by metis
  with fi fo w1 show ?thesis by (simp add: apply_fade_with_def)
qed

lemma apply_fade_with_zero_count:
  assumes "w \<noteq> []" and "fs = 0"
  shows "apply_fade_with w fs = Inl ValueError"
  using assms
  by (simp add: apply_fade_with_def linspace_def slice_imul_def slice_bounds_def
      clip_index_def broadcast_to_def)


lemma apply_fade_count:
  assumes "float_times_int fd sr = Inr p" and "py_int p = Inr fs"
  shows "apply_fade w fd sr = apply_fade_with w fs"
  using assms by (simp add: apply_fade_def bind_err_simps)

lemma apply_fade_Inr_count:
  assumes "apply_fade w fd sr = Inr w'"
  shows "\<exists>p fs. float_times_int fd sr = Inr p \<and> py_int p = Inr fs
    \<and> apply_fade_with w fs = Inr w'"
  using assms by (auto simp: apply_fade_def bind_err_Inr)

lemma apply_fade_length:
  assumes "apply_fade w fd sr = Inr w'"
  shows "length w' = length w"
  using apply_fade_Inr_count[OF assms] by (auto dest: apply_fade_with_length)

lemma apply_fade_zero:
  assumes "apply_fade w fd sr = Inr w'" and "i < length w" and "w ! i = 0"
  shows "w' ! i = 0"
  using apply_fade_Inr_count[OF assms(1)] assms(2,3) by (auto dest: apply_fade_with_zero)

subsection \<open>The fade on the store\<close>

lemma store_same: "store h r (cells h r) = h"
  by (simp add: store_def)

lemma cells_store: "cells (store h r v) r' = (if r' = r then v else cells h r')"
  by (simp add: store_def)

lemma store_store: "store (store h r v) r v' = store h r v'"
  by (simp add: store_def)

lemma broadcast_to_cong_length:
  "broadcast_to L v = Inr v' \<Longrightarrow> length u = length v \<Longrightarrow> \<exists>u'. broadcast_to L u = Inr u'"
  by (auto simp: broadcast_to_def split: if_splits)

lemma slice_imul_Inl:
  assumes "slice_imul a s e v = Inl err" and "slice_bounds (length a) s e = (lo, hi)"
  shows "broadcast_to (hi - lo) v = Inl err"
  using assms by (auto simp: slice_imul_def split: sum.splits)

lemma fade_out_fails:
  assumes s1: "slice_imul w None (Some fs) fi = Inr w1"
    and lfi: "length fi = nat fs" and lfo: "length fo = nat fs" and nn: "0 \<le> fs"
    and s2: "slice_imul w1 (Some (- fs)) None fo = Inl err"
  shows "w1 = w"
proof (cases "fs = 0")
  case True
  with slice_imul_form[OF s1 slice_bounds_head[OF nn]] show ?thesis
    by (auto simp: broadcast_to_def split: if_splits)
next
  case False
  with nn have pos: "0 < fs" by simp
  from slice_imul_form[OF s1 slice_bounds_head[OF nn]] obtain v' where
    b1: "broadcast_to (min (length w) (nat fs) - 0) fi = Inr v'" by blast
  have len: "length w1 = length w" by (rule slice_imul_length[OF s1])
  have "length w1 - (length w1 - nat fs) = min (length w) (nat fs) - 0"
    unfolding len by linarith
  with slice_imul_Inl[OF s2 slice_bounds_tail[OF pos]]
  have "broadcast_to (min (length w) (nat fs) - 0) fo = Inl err" by simp
  moreover from broadcast_to_cong_length[OF b1, of fo] lfi lfo
  obtain u' where "broadcast_to (min (length w) (nat fs) - 0) fo = Inr u'" by auto
  ultimately show ?thesis by simp
qed

lemma apply_fade_heap_with_eq:
  "apply_fade_heap_with h r fs =
     (case apply_fade_with (cells h r) fs of
        Inl e \<Rightarrow> (Inl e, h)
      | Inr w' \<Rightarrow> (Inr r, store h r w'))"
proof -
  show ?thesis
  proof (cases "linspace 0 1 fs True")
    case (Inl e)
    then show ?thesis by (simp add: apply_fade_heap_with_def apply_fade_with_def Let_def)
  next
    case fi: (Inr fi)
    from linspace_length[OF fi] have nn: "0 \<le> fs" and lfi: "length fi = nat fs" by simp_all
    from linspace_Inr[OF nn] obtain fo where
      fo: "linspace 1 0 fs True = Inr fo" and lfo: "length fo = nat fs" by blast
    show ?thesis
    proof (cases "slice_imul (cells h r) None (Some fs) fi")
      case (Inl e)
      with fi show ?thesis by (simp add: apply_fade_heap_with_def apply_fade_with_def Let_def)
    next
      case w1: (Inr w1)
      show ?thesis
      proof (cases "slice_imul w1 (Some (- fs)) None fo")
        case (Inl e)
        from fade_out_fails[OF w1 lfi lfo nn Inl] have "w1 = cells h r" .
        with fi fo w1 Inl show ?thesis
          by (simp add: apply_fade_heap_with_def apply_fade_with_def Let_def cells_store store_same)
      next
        case (Inr w2)
        with fi fo w1 show ?thesis
          by (simp add: apply_fade_heap_with_def apply_fade_with_def Let_def cells_store store_store)
      qed
    qed
  qed
qed

lemma apply_fade_heap_eq:
  "apply_fade_heap h r fd sr =
     (case apply_fade (cells h r) fd sr of
        Inl e \<Rightarrow> (Inl e, h)
      | Inr w' \<Rightarrow> (Inr r, store h r w'))"
proof (cases "float_times_int fd sr")
  case (Inl e)
  then show ?thesis by (simp add: apply_fade_heap_def apply_fade_def bind_err_simps)
next
  case p: (Inr p)
  show ?thesis
  proof (cases "py_int p")
    case (Inl e)
    with p show ?thesis by (simp add: apply_fade_heap_def apply_fade_def bind_err_simps)
  next
    case (Inr fs)
    with p show ?thesis
      by (simp add: apply_fade_heap_def apply_fade_def bind_err_simps apply_fade_heap_with_eq)
  qed
qed

lemma apply_fade_cells:
  "cells (snd (apply_fade_heap h r fd sr)) r =
     (case apply_fade (cells h r) fd sr of Inl e \<Rightarrow> cells h r | Inr w' \<Rightarrow> w')"
  by (simp add: apply_fade_heap_eq cells_store split: sum.splits)

lemma apply_fade_with_frame:
  assumes "apply_fade_with w fs = Inr w'" and "i < length w"
    and "fs \<le> int i"
    and "int i < int (length w) - fs"
  shows "w' ! i = w ! i"
proof -
  from apply_fade_with_steps[OF assms(1)] obtain fi w1 fo where
    nn: "0 \<le> fs" and
    fo: "linspace 1 0 fs True = Inr fo" and
    s1: "slice_imul w None (Some fs) fi = Inr w1" and
    s2: "slice_imul w1 (Some (- fs)) None fo = Inr w'" by blast
  have len: "length w1 = length w" by (rule slice_imul_length[OF s1])
  from linspace_length[OF fo] have lfo: "length fo = nat fs" by simp
  have "w' ! i = w1 ! i"
    using fade_out_frame[OF s2 lfo nn] assms(2,4) len by simp
  also have "\<dots> = w ! i" by (rule fade_in_frame[OF s1 nn assms(3,2)])
  finally show ?thesis .
qed

text \<open>
  The sample count follows the product as it is rounded: for the double nearest
  to \<open>1 / 3\<close> and the rate \<open>3\<close> the exact product is below \<open>1\<close>, the computed one
  is \<open>1\<close>, and one sample is faded at either end.
\<close>

lemma apply_fade_rounded_count:
  "6004799503160661 / 18014398509481984 * (3 :: real) < 1
   \<and> float_times_int (6004799503160661 / 18014398509481984) 3 = Inr 1
   \<and> apply_fade [1, 2, 3] (6004799503160661 / 18014398509481984) 3 = Inr [0, 2, 3]"
  by code_simp

text \<open>
  C10. On a non-empty buffer, a fade duration whose sample count
  \<open>\<lfloor>fade_duration * sample_rate\<rfloor>\<close> is zero, the product \<open>p\<close> being the one the
  program computes in double precision, makes \<^verbatim>\<open>apply_fade\<close> raise the
  shape-mismatch ValueError: the fade-out slice \<^verbatim>\<open>waveform[-0:]\<close> is the whole
  buffer and the ramp is empty. The store is left as it was.
\<close>

theorem apply_fade_zero_samples_raises:
  assumes "cells h r \<noteq> []"
    and "float_times_int fade_duration sample_rate = Inr p" and "\<lfloor>p\<rfloor> = 0"
  shows "apply_fade (cells h r) fade_duration sample_rate = Inl ValueError
    \<and> apply_fade_heap h r fade_duration sample_rate = (Inl ValueError, h)"
proof -
  from assms(3) have "0 \<le> p" and "p < 1" by linarith+
  then have "\<bar>p\<bar> < 1" by simp
  then have "float_finite p" by (rule float_finite_below_one)
  from py_int_finite[OF this] \<open>0 \<le> p\<close> assms(3) have "py_int p = Inr 0"
    by (simp add: trunc_zero_floor)
  from apply_fade_count[OF assms(2) this] assms(1)
  have "apply_fade (cells h r) fade_duration sample_rate = Inl ValueError"
    by (simp add: apply_fade_with_zero_count)
  then show ?thesis by (simp add: apply_fade_heap_eq)
qed

theorem apply_fade_zero_samples_raises_witness:
  "cells \<lparr>cells = (\<lambda>_. [1, 1, 1]), next_ref = 1\<rparr> 0 \<noteq> []
   \<and> float_times_int (1 / 65536) SAMPLE_RATE = Inr (375 / 512)
   \<and> \<lfloor>375 / 512 :: real\<rfloor> = 0
   \<and> apply_fade [1, 1, 1] (1 / 65536) SAMPLE_RATE = Inl ValueError
   \<and> apply_fade_heap \<lparr>cells = (\<lambda>_. [1, 1, 1]), next_ref = 1\<rparr> 0 (1 / 65536) SAMPLE_RATE
       = (Inl ValueError, \<lparr>cells = (\<lambda>_. [1, 1, 1]), next_ref = 1\<rparr>)"
proof -
  have a: "cells \<lparr>cells = (\<lambda>_. [1, 1, 1]), next_ref = 1\<rparr> 0 \<noteq> []" by simp
  have b: "float_times_int (1 / 65536) SAMPLE_RATE = Inr (375 / 512)" by code_simp
  have c: "\<lfloor>375 / 512 :: real\<rfloor> = 0" by simp
  from apply_fade_zero_samples_raises[OF a b c] a b c show ?thesis by simp
qed

text \<open>
  C5. Let \<open>p\<close> be the product \<open>fade_duration * sample_rate\<close> as the program
  computes it, \<open>fade_samples = \<lfloor>p\<rfloor>\<close> and \<open>2 * fade_samples \<le> length\<close>. Then the
  buffer that \<^verbatim>\<open>apply_fade\<close> leaves in the store agrees with the original buffer
  at every index \<open>i\<close> with \<open>fade_samples \<le> i < length - fade_samples\<close>, whatever
  the outcome of the call; and with a positive \<open>fade_samples\<close> and a finite product the call
  does return the buffer.
\<close>

theorem apply_fade_frame:
  assumes "float_times_int fade_duration sample_rate = Inr p"
    and "fade_samples = \<lfloor>p\<rfloor>"
    and "2 * fade_samples \<le> int (length (cells h r))"
  shows "(0 < fade_samples \<and> float_finite p \<longrightarrow>
            fst (apply_fade_heap h r fade_duration sample_rate) = Inr r)
    \<and> (\<forall>i. i < length (cells h r) \<and> fade_samples \<le> int i
            \<and> int i < int (length (cells h r)) - fade_samples
          \<longrightarrow> cells (snd (apply_fade_heap h r fade_duration sample_rate)) r ! i = cells h r ! i)"
proof (intro conjI impI allI)
  assume pos: "0 < fade_samples \<and> float_finite p"
  with assms(2) have p0: "0 \<le> p" by linarith
  from pos have "float_finite p" by simp
  from py_int_finite[OF this] p0 assms(2) have c: "py_int p = Inr fade_samples"
    by (simp add: trunc_zero_floor)
  from pos assms(3) have "fade_samples \<le> int (length (cells h r))" by linarith
  with apply_fade_with_Inr[of fade_samples "cells h r"] pos
  obtain w' where "apply_fade_with (cells h r) fade_samples = Inr w'" by auto
  with apply_fade_count[OF assms(1) c]
  have "apply_fade (cells h r) fade_duration sample_rate = Inr w'" by simp
  then show "fst (apply_fade_heap h r fade_duration sample_rate) = Inr r"
    by (simp add: apply_fade_heap_eq)
next
  fix i
  assume i: "i < length (cells h r) \<and> fade_samples \<le> int i
      \<and> int i < int (length (cells h r)) - fade_samples"
  show "cells (snd (apply_fade_heap h r fade_duration sample_rate)) r ! i = cells h r ! i"
  proof (cases "apply_fade (cells h r) fade_duration sample_rate")
    case (Inl e)
    then show ?thesis by (simp add: apply_fade_cells)
  next
    case (Inr w')
    from apply_fade_Inr_count[OF Inr] assms(1) obtain fs where
      c: "py_int p = Inr fs" and w: "apply_fade_with (cells h r) fs = Inr w'" by auto
    from py_int_Inr[OF c] have fs: "fs = trunc_zero p" by simp
    from apply_fade_with_steps[OF w] have nn: "0 \<le> fs" by blast
    have "fs = fade_samples"
    proof (cases "0 \<le> p")
      case True
      with fs assms(2) show ?thesis by (simp add: trunc_zero_def)
    next
      case False
      with fs nn have z: "fs = 0" by (simp add: trunc_zero_def) linarith
      from i have "cells h r \<noteq> []" by auto
      from apply_fade_with_zero_count[OF this z] w show ?thesis by simp
    qed
    with apply_fade_with_frame[OF w] i have "w' ! i = cells h r ! i" by simp
    with Inr show ?thesis by (simp add: apply_fade_cells)
  qed
qed

theorem apply_fade_frame_witness:
  "float_times_int 1 2 = Inr 2 \<and> float_finite 2
   \<and> (2 :: int) = \<lfloor>2 :: real\<rfloor>
   \<and> 2 * (2 :: int) \<le> int (length (cells \<lparr>cells = (\<lambda>_. [1, 2, 3, 4, 5]), next_ref = 1\<rparr> 0))
   \<and> fst (apply_fade_heap \<lparr>cells = (\<lambda>_. [1, 2, 3, 4, 5]), next_ref = 1\<rparr> 0 1 2) = Inr 0
   \<and> cells (snd (apply_fade_heap \<lparr>cells = (\<lambda>_. [1, 2, 3, 4, 5]), next_ref = 1\<rparr> 0 1 2)) 0 ! 2 = 3"
proof -
  have a: "float_times_int 1 2 = Inr 2" by code_simp
  have b: "(2 :: int) = \<lfloor>2 :: real\<rfloor>" by simp
  have c: "2 * (2 :: int) \<le> int (length (cells \<lparr>cells = (\<lambda>_. [1, 2, 3, 4, 5]), next_ref = 1\<rparr> 0))"
    by simp
  have d: "float_finite 2" by code_simp
  note f = apply_fade_frame[OF a b c]
  from f d have e: "fst (apply_fade_heap \<lparr>cells = (\<lambda>_. [1, 2, 3, 4, 5]), next_ref = 1\<rparr> 0 1 2) = Inr 0"
    by simp
  from f have "\<forall>i. i < length (cells \<lparr>cells = (\<lambda>_. [1, 2, 3, 4, 5]), next_ref = 1\<rparr> 0) \<and> 2 \<le> int i
            \<and> int i < int (length (cells \<lparr>cells = (\<lambda>_. [1, 2, 3, 4, 5]), next_ref = 1\<rparr> 0)) - 2
          \<longrightarrow> cells (snd (apply_fade_heap \<lparr>cells = (\<lambda>_. [1, 2, 3, 4, 5]), next_ref = 1\<rparr> 0 1 2)) 0 ! i
             = cells \<lparr>cells = (\<lambda>_. [1, 2, 3, 4, 5]), next_ref = 1\<rparr> 0 ! i"
    by (rule conjunct2)
  then have g: "cells (snd (apply_fade_heap \<lparr>cells = (\<lambda>_. [1, 2, 3, 4, 5]), next_ref = 1\<rparr> 0 1 2)) 0 ! 2 = 3"
    by simp
  from a d b c e g show ?thesis by (intro conjI)
qed

subsection \<open>Envelope, normalisation and mixing\<close>

lemma slice_assign_length:
  assumes "slice_assign a s e v = Inr a'"
  shows "length a' = length a"
proof -
  obtain lo hi where b: "slice_bounds (length a) s e = (lo, hi)" by force
  with assms obtain v' where
    v: "broadcast_to (hi - lo) v = Inr v'" and a': "a' = take lo a @ v' @ drop hi a"
    by (auto simp: slice_assign_def split: sum.splits)
  from slice_bounds_le[OF b] have le: "lo \<le> hi" "hi \<le> length a" by simp_all
  from splice_length[OF le broadcast_to_length[OF v]] show ?thesis unfolding a' .
qed

lemma apply_envelope_with_steps:
  assumes "apply_envelope_with w as rs = Inr w'"
  shows "\<exists>env. length env = length w \<and> np_mul w env = Inr w'"
proof -
  let ?e0 = "replicate (length w) (1 :: real)"
  let ?s1 = "if 0 < as
            then (case linspace 0 1 as True of
                    Inl e \<Rightarrow> Inl e
                  | Inr ramp \<Rightarrow> slice_assign ?e0 None (Some as) ramp)
            else Inr ?e0"
  from assms obtain env1 where e1: "?s1 = Inr env1"
    by (cases ?s1) (simp_all add: apply_envelope_with_def Let_def)
  have l1: "length env1 = length w"
  proof (cases "0 < as")
    case True
    with e1 obtain ramp where "slice_assign ?e0 None (Some as) ramp = Inr env1"
      by (auto split: sum.splits)
    from slice_assign_length[OF this] show ?thesis by simp
  next
    case False
    with e1 show ?thesis by auto
  qed
  let ?s2 = "if 0 < rs
            then (case linspace 1 0 rs True of
                    Inl e \<Rightarrow> Inl e
                  | Inr ramp \<Rightarrow> slice_assign env1 (Some (- rs)) None ramp)
            else Inr env1"
  from assms e1 obtain env2 where e2: "?s2 = Inr env2"
    by (cases ?s2) (simp_all add: apply_envelope_with_def Let_def)
  have l2: "length env2 = length w"
  proof (cases "0 < rs")
    case True
    with e2 obtain ramp where "slice_assign env1 (Some (- rs)) None ramp = Inr env2"
      by (auto split: sum.splits)
    from slice_assign_length[OF this] l1 show ?thesis by simp
  next
    case False
    with e2 l1 show ?thesis by auto
  qed
  from assms e1 e2 have "np_mul w env2 = Inr w'"
    by (simp add: apply_envelope_with_def Let_def)
  with l2 show ?thesis by blast
qed

lemma apply_envelope_Inr_count:
  assumes "apply_envelope w a r sr = Inr w'"
  shows "\<exists>pa na pr nr. float_times_int a sr = Inr pa \<and> py_int pa = Inr na
    \<and> float_times_int r sr = Inr pr \<and> py_int pr = Inr nr
    \<and> apply_envelope_with w na nr = Inr w'"
  using assms by (auto simp: apply_envelope_def bind_err_Inr)

lemma apply_envelope_length:
  assumes "apply_envelope w a r sr = Inr w'"
  shows "length w' = length w"
proof -
  from apply_envelope_Inr_count[OF assms] obtain na nr where
    "apply_envelope_with w na nr = Inr w'" by blast
  from apply_envelope_with_steps[OF this] obtain env where
    "length env = length w" "np_mul w env = Inr w'" by blast
  then show ?thesis by (auto simp: np_mul_def)
qed

lemma np_max_abs:
  assumes "w \<noteq> []"
  shows "np_max (map abs w) = Inr (Max (abs ` set w))"
proof (cases w)
  case Nil
  with assms show ?thesis by simp
next
  case (Cons a list)
  have "fold max (map abs list) \<bar>a\<bar> = Max (set (\<bar>a\<bar> # map abs list))"
    by (simp only: Max.set_eq_fold)
  with Cons show ?thesis by (simp add: np_max_def)
qed

lemma normalize_audio_length:
  "normalize_audio w hr = Inr w' \<Longrightarrow> length w' = length w"
  by (auto simp: normalize_audio_def split: sum.splits if_splits)

lemma normalize_audio_Inr:
  "w \<noteq> [] \<Longrightarrow> \<exists>w'. normalize_audio w hr = Inr w'"
  by (simp add: normalize_audio_def np_max_abs)

lemma normalize_audio_zero:
  assumes "normalize_audio w hr = Inr w'" and "i < length w" and "w ! i = 0"
  shows "w' ! i = 0"
  using assms by (auto simp: normalize_audio_def split: sum.splits if_splits)

lemma iadd_same_length:
  "length v = length a \<Longrightarrow> iadd a v = Inr (map2 (+) a v)"
  by (simp add: iadd_def broadcast_to_def)

lemma mix_loop_sum:
  assumes "\<forall>p\<in>set ps. length (fst p) = length mixed"
  shows "\<exists>m. mix_loop mixed ps = Inr m \<and> length m = length mixed \<and>
    (\<forall>i<length mixed. m ! i = mixed ! i + (\<Sum>k<length ps. snd (ps ! k) * fst (ps ! k) ! i))"
  using assms
proof (induction ps arbitrary: mixed)
  case Nil
  then show ?case by simp
next
  case (Cons p ps)
  obtain wave gain where p: "p = (wave, gain)" by (cases p)
  let ?m1 = "map2 (+) mixed (map (\<lambda>x. x * gain) wave)"
  from Cons.prems p have lw: "length wave = length mixed" by simp
  then have st: "iadd mixed (map (\<lambda>x. x * gain) wave) = Inr ?m1"
    by (simp add: iadd_same_length)
  from lw have l1: "length ?m1 = length mixed" by simp
  with Cons.prems have "\<forall>q\<in>set ps. length (fst q) = length ?m1" by simp
  from Cons.IH[OF this] obtain m where
    m: "mix_loop ?m1 ps = Inr m" "length m = length ?m1"
      "\<forall>i<length ?m1. m ! i = ?m1 ! i + (\<Sum>k<length ps. snd (ps ! k) * fst (ps ! k) ! i)"
    by blast
  have "m ! i = mixed ! i + (\<Sum>k<length (p # ps). snd ((p # ps) ! k) * fst ((p # ps) ! k) ! i)"
    if i: "i < length mixed" for i
  proof -
    from i l1 m(3) have "m ! i = ?m1 ! i + (\<Sum>k<length ps. snd (ps ! k) * fst (ps ! k) ! i)"
      by simp
    moreover from i lw have "?m1 ! i = mixed ! i + wave ! i * gain" by simp
    moreover have "(\<Sum>k<length (p # ps). snd ((p # ps) ! k) * fst ((p # ps) ! k) ! i)
        = gain * wave ! i + (\<Sum>k<length ps. snd (ps ! k) * fst (ps ! k) ! i)"
      by (simp only: length_Cons sum.lessThan_Suc_shift) (simp add: p)
    ultimately show ?thesis by (simp add: algebra_simps)
  qed
  with m(1,2) l1 st p show ?case by simp
qed

lemma mix_waveforms_Some:
  assumes "waveforms \<noteq> []" and "\<forall>w\<in>set waveforms. length w = n"
  shows "\<exists>mixed. mix_waveforms waveforms (Some gains) = Inr mixed \<and> length mixed = n \<and>
    (\<forall>i<n. mixed ! i =
       (\<Sum>k<min (length waveforms) (length gains). gains ! k * waveforms ! k ! i))"
proof -
  from assms(1) obtain w0 rest where ws: "waveforms = w0 # rest" by (cases waveforms) auto
  with assms(2) have l0: "length w0 = n" by simp
  let ?ps = "zip waveforms gains"
  have "\<forall>p\<in>set ?ps. length (fst p) = length (replicate n (0::real))"
    using assms(2) by (auto dest: set_zip_leftD)
  from mix_loop_sum[OF this] obtain m where
    m: "mix_loop (replicate n 0) ?ps = Inr m" "length m = n"
      "\<forall>i<n. m ! i = replicate n (0::real) ! i + (\<Sum>k<length ?ps. snd (?ps ! k) * fst (?ps ! k) ! i)"
    by auto
  have "m ! i = (\<Sum>k<min (length waveforms) (length gains). gains ! k * waveforms ! k ! i)"
    if "i < n" for i
  proof -
    from that m(3) have "m ! i = (\<Sum>k<length ?ps. snd (?ps ! k) * fst (?ps ! k) ! i)" by simp
    also have "\<dots> = (\<Sum>k<min (length waveforms) (length gains). gains ! k * waveforms ! k ! i)"
      by (rule sum.cong) simp_all
    finally show ?thesis .
  qed
  with m(1,2) ws l0 show ?thesis by (simp add: mix_waveforms_def)
qed

lemma mix_waveforms_None:
  "waveforms \<noteq> [] \<Longrightarrow>
   mix_waveforms waveforms None =
   mix_waveforms waveforms
     (Some (replicate (length waveforms) (1 / real (length waveforms))))"
  by (simp add: mix_waveforms_def)

lemma apply_fade_heap_length:
  "length (cells (snd (apply_fade_heap h r fd sr)) r) = length (cells h r)"
  by (simp add: apply_fade_cells apply_fade_length split: sum.splits)

lemma apply_envelope_heap_Inr:
  assumes "apply_envelope (cells h r) a rl sr = Inr w'"
  shows "apply_envelope_heap h r a rl sr =
    (Inr (next_ref h), \<lparr>cells = (cells h)(next_ref h := w'), next_ref = Suc (next_ref h)\<rparr>)"
  using assms by (simp add: apply_envelope_heap_def alloc_def)

lemma apply_envelope_heap_Inl:
  assumes "apply_envelope (cells h r) a rl sr = Inl e"
  shows "apply_envelope_heap h r a rl sr = (Inl e, h)"
  using assms by (simp add: apply_envelope_heap_def)

lemma apply_envelope_heap_leaves:
  assumes "r < next_ref h"
  shows "cells (snd (apply_envelope_heap h r a rl sr)) r = cells h r"
proof (cases "apply_envelope (cells h r) a rl sr")
  case (Inl e)
  then show ?thesis by (simp add: apply_envelope_heap_Inl)
next
  case (Inr w')
  with assms show ?thesis by (simp add: apply_envelope_heap_Inr)
qed

lemma mix_waveforms_length:
  assumes "waveforms \<noteq> []" and "\<forall>w\<in>set waveforms. length w = n"
  shows "\<exists>mixed. mix_waveforms waveforms gains = Inr mixed \<and> length mixed = n"
proof (cases gains)
  case None
  from mix_waveforms_Some[OF assms] mix_waveforms_None[OF assms(1)] None
  show ?thesis by metis
next
  case (Some g)
  from mix_waveforms_Some[OF assms, of g] Some show ?thesis by blast
qed

text \<open>
  C9. No operation resizes a buffer. Whenever \<^verbatim>\<open>apply_fade\<close>,
  \<^verbatim>\<open>apply_envelope\<close> or \<^verbatim>\<open>normalize_audio\<close> returns, the returned buffer has the
  length of the input; the buffer that \<^verbatim>\<open>apply_fade\<close> leaves in the store has the
  length it had; \<^verbatim>\<open>apply_envelope\<close> leaves its (allocated) argument as it was; and
  \<^verbatim>\<open>mix_waveforms\<close> on a non-empty list of buffers of one common length returns a
  buffer of that length, with or without explicit gains.
\<close>

theorem buffer_length_invariant:
  "(apply_fade w fade_duration sample_rate = Inr w1 \<longrightarrow> length w1 = length w)
   \<and> length (cells (snd (apply_fade_heap h r fade_duration sample_rate)) r) = length (cells h r)
   \<and> (apply_envelope w attack release sample_rate = Inr w2 \<longrightarrow> length w2 = length w)
   \<and> (r < next_ref h \<longrightarrow>
        cells (snd (apply_envelope_heap h r attack release sample_rate)) r = cells h r)
   \<and> (normalize_audio w headroom = Inr w3 \<longrightarrow> length w3 = length w)
   \<and> (waveforms \<noteq> [] \<and> (\<forall>v\<in>set waveforms. length v = n) \<longrightarrow>
        (\<exists>mixed. mix_waveforms waveforms gains = Inr mixed \<and> length mixed = n))"
proof (intro conjI impI)
  show "length (cells (snd (apply_fade_heap h r fade_duration sample_rate)) r) = length (cells h r)"
    by (rule apply_fade_heap_length)
next
  assume "waveforms \<noteq> [] \<and> (\<forall>v\<in>set waveforms. length v = n)"
  then show "\<exists>mixed. mix_waveforms waveforms gains = Inr mixed \<and> length mixed = n"
    by (simp add: mix_waveforms_length)
qed (simp_all add: apply_fade_length apply_envelope_length apply_envelope_heap_leaves
    normalize_audio_length)

theorem buffer_length_invariant_witness:
  "apply_fade [1, 2, 3, 4, 5] 1 2 = Inr [0, 2, 3, 4, 0]
   \<and> length [0, 2, 3, 4, 0 :: real] = length [1, 2, 3, 4, 5 :: real]
   \<and> length (cells (snd (apply_fade_heap \<lparr>cells = (\<lambda>_. [1, 2, 3, 4, 5]), next_ref = 1\<rparr> 0 1 2)) 0)
       = length (cells \<lparr>cells = (\<lambda>_. [1, 2, 3, 4, 5]), next_ref = 1\<rparr> 0)
   \<and> apply_envelope [1, 2, 3, 4, 5] 1 1 2 = Inr [0, 2, 3, 4, 0]
   \<and> 0 < next_ref \<lparr>cells = (\<lambda>_. [1, 2, 3, 4, 5]), next_ref = 1\<rparr>
   \<and> cells (snd (apply_envelope_heap \<lparr>cells = (\<lambda>_. [1, 2, 3, 4, 5]), next_ref = 1\<rparr> 0 1 1 2)) 0
       = cells \<lparr>cells = (\<lambda>_. [1, 2, 3, 4, 5]), next_ref = 1\<rparr> 0
   \<and> normalize_audio [1, 2, 3, 4, 5] (9 / 10) = Inr [9 / 50, 9 / 25, 27 / 50, 18 / 25, 9 / 10]
   \<and> length [9 / 50, 9 / 25, 27 / 50, 18 / 25, 9 / 10 :: real] = length [1, 2, 3, 4, 5 :: real]
   \<and> [[1, 2], [3, 4 :: real]] \<noteq> []
   \<and> list_all (\<lambda>v. length v = 2) [[1, 2], [3, 4 :: real]]
   \<and> (\<exists>mixed. mix_waveforms [[1, 2], [3, 4]] (Some [1 / 2, 1 / 4]) = Inr mixed \<and> length mixed = 2)"
proof -
  have a: "apply_fade [1, 2, 3, 4, 5] 1 2 = Inr [0, 2, 3, 4, 0]" by code_simp
  have b: "apply_envelope [1, 2, 3, 4, 5] 1 1 2 = Inr [0, 2, 3, 4, 0]" by code_simp
  have c: "normalize_audio [1, 2, 3, 4, 5] (9 / 10) = Inr [9 / 50, 9 / 25, 27 / 50, 18 / 25, 9 / 10]"
    by code_simp
  from a b c
    buffer_length_invariant[of "[1, 2, 3, 4, 5]" 1 2 "[0, 2, 3, 4, 0]"
      "\<lparr>cells = (\<lambda>_. [1, 2, 3, 4, 5]), next_ref = 1\<rparr>" 0 1 1 "[0, 2, 3, 4, 0]"
      "9 / 10" "[9 / 50, 9 / 25, 27 / 50, 18 / 25, 9 / 10]" "[[1, 2], [3, 4]]" 2
      "Some [1 / 2, 1 / 4]"]
  show ?thesis by simp
qed

text \<open>
  C4. For a non-empty list of buffers of one common length \<open>n\<close> and a gain list
  with one gain per buffer, \<^verbatim>\<open>mix_waveforms\<close> returns the buffer whose sample at
  every index \<open>i\<close> is the sum over the voices \<open>k\<close> of
  \<open>gains ! k * waveforms ! k ! i\<close>; without a gain list every voice is weighted
  \<open>1 / N\<close>, \<open>N\<close> the number of voices.
\<close>

theorem mix_waveforms_weighted_sum:
  assumes "waveforms \<noteq> []" and "\<forall>w\<in>set waveforms. length w = n"
    and "length gains = length waveforms"
  shows "(\<exists>mixed. mix_waveforms waveforms (Some gains) = Inr mixed \<and> length mixed = n \<and>
            (\<forall>i<n. mixed ! i = (\<Sum>k<length waveforms. gains ! k * waveforms ! k ! i)))
    \<and> (\<exists>mixed. mix_waveforms waveforms None = Inr mixed \<and> length mixed = n \<and>
            (\<forall>i<n. mixed ! i =
               (\<Sum>k<length waveforms. 1 / real (length waveforms) * waveforms ! k ! i)))"
proof
  from mix_waveforms_Some[OF assms(1,2), of gains] assms(3)
  show "\<exists>mixed. mix_waveforms waveforms (Some gains) = Inr mixed \<and> length mixed = n \<and>
            (\<forall>i<n. mixed ! i = (\<Sum>k<length waveforms. gains ! k * waveforms ! k ! i))"
    by simp
next
  let ?N = "length waveforms"
  let ?g = "replicate ?N (1 / real ?N)"
  from mix_waveforms_Some[OF assms(1,2), of ?g] obtain mixed where
    m: "mix_waveforms waveforms (Some ?g) = Inr mixed" "length mixed = n"
      "\<forall>i<n. mixed ! i = (\<Sum>k<?N. ?g ! k * waveforms ! k ! i)"
    by auto
  have "mixed ! i = (\<Sum>k<?N. 1 / real ?N * waveforms ! k ! i)" if "i < n" for i
  proof -
    from that m(3) have "mixed ! i = (\<Sum>k<?N. ?g ! k * waveforms ! k ! i)" by simp
    also have "\<dots> = (\<Sum>k<?N. 1 / real ?N * waveforms ! k ! i)"
      by (rule sum.cong) simp_all
    finally show ?thesis .
  qed
  with m(1,2) mix_waveforms_None[OF assms(1)]
  show "\<exists>mixed. mix_waveforms waveforms None = Inr mixed \<and> length mixed = n \<and>
            (\<forall>i<n. mixed ! i = (\<Sum>k<?N. 1 / real ?N * waveforms ! k ! i))"
    by simp
qed

theorem mix_waveforms_weighted_sum_witness:
  "[[1, 2], [3, 4 :: real]] \<noteq> []
   \<and> list_all (\<lambda>w. length w = 2) [[1, 2], [3, 4 :: real]]
   \<and> length [1 / 2, 1 / 4 :: real] = length [[1, 2], [3, 4 :: real]]
   \<and> (\<exists>mixed. mix_waveforms [[1, 2], [3, 4]] (Some [1 / 2, 1 / 4]) = Inr mixed
         \<and> mixed ! 0 = 1 / 2 * 1 + 1 / 4 * 3 \<and> mixed ! 1 = 1 / 2 * 2 + 1 / 4 * 4)
   \<and> (\<exists>mixed. mix_waveforms [[1, 2], [3, 4]] None = Inr mixed
         \<and> mixed ! 0 = 1 / 2 * 1 + 1 / 2 * 3 \<and> mixed ! 1 = 1 / 2 * 2 + 1 / 2 * 4)"
proof -
  have a: "[[1, 2], [3, 4 :: real]] \<noteq> []" by simp
  have b: "\<forall>w\<in>set [[1, 2], [3, 4 :: real]]. length w = 2" by simp
  have c: "length [1 / 2, 1 / 4 :: real] = length [[1, 2], [3, 4 :: real]]" by simp
  have s: "(\<Sum>k<length [[1, 2], [3, 4 :: real]]. f k) = f 0 + f 1" for f :: "nat \<Rightarrow> real"
    by (simp add: lessThan_Suc)
  from mix_waveforms_weighted_sum[OF a b c] show ?thesis
    unfolding s by (auto simp: numeral_2_eq_2)
qed

subsection \<open>The peak after normalisation\<close>

lemma scaled_abs_image:
  assumes "0 < (peak :: real)"
  shows "abs ` set (map (\<lambda>x. x / peak * hr) w) = (\<lambda>a. a / peak * \<bar>hr\<bar>) ` (abs ` set w)"
proof -
  have "\<bar>x / peak * hr\<bar> = \<bar>x\<bar> / peak * \<bar>hr\<bar>" for x :: real
    using assms by (simp add: abs_mult)
  then show ?thesis by (simp add: image_image)
qed

lemma normalize_audio_scaled_peak:
  assumes "\<exists>x\<in>set w. x \<noteq> 0"
  shows "\<exists>w'. normalize_audio w hr = Inr w' \<and> length w' = length w
            \<and> Max (abs ` set w') = \<bar>hr\<bar>"
proof -
  let ?A = "abs ` set w" and ?peak = "Max (abs ` set w)"
  from assms obtain x where x: "x \<in> set w" "x \<noteq> 0" by blast
  then have ne: "w \<noteq> []" by auto
  have fin: "finite ?A" and nem: "?A \<noteq> {}" using ne by simp_all
  from x have "\<bar>x\<bar> \<in> ?A" by simp
  then have "\<bar>x\<bar> \<le> ?peak" using fin by (rule_tac Max_ge)
  with x(2) have pos: "0 < ?peak" by simp
  let ?f = "\<lambda>a. a / ?peak * \<bar>hr\<bar>"
  let ?w' = "map (\<lambda>x. x / ?peak * hr) w"
  have "mono ?f"
    using pos by (intro monoI mult_right_mono divide_right_mono) simp_all
  from mono_Max_commute[OF this fin nem] have "Max (?f ` ?A) = ?f ?peak" by simp
  also from pos have "\<dots> = \<bar>hr\<bar>" by simp
  finally have "Max (abs ` set ?w') = \<bar>hr\<bar>"
    by (simp only: scaled_abs_image[OF pos])
  moreover from ne pos have "normalize_audio w hr = Inr ?w'"
    by (simp add: normalize_audio_def np_max_abs)
  ultimately show ?thesis by simp
qed

lemma normalize_audio_silent:
  assumes "w \<noteq> []" and "\<forall>x\<in>set w. x = 0"
  shows "normalize_audio w hr = Inr w"
proof -
  from assms have "abs ` set w = {0}" by (cases w) auto
  then have "Max (abs ` set w) = 0" by simp
  with assms(1) show ?thesis by (simp add: normalize_audio_def np_max_abs)
qed

text \<open>
  C1, as the code has it. For every buffer with a non-zero sample and every
  headroom, \<^verbatim>\<open>normalize_audio\<close> returns a buffer of the same length whose largest
  absolute sample is \<open>\<bar>headroom\<bar>\<close>, which is the headroom itself exactly when the
  headroom is not negative; for a non-empty buffer of zeros it returns the input.
\<close>

theorem normalize_audio_peak:
  "((\<exists>x\<in>set w. x \<noteq> 0) \<longrightarrow>
      (\<exists>w'. normalize_audio w headroom = Inr w' \<and> length w' = length w
            \<and> Max (abs ` set w') = \<bar>headroom\<bar>))
   \<and> (w \<noteq> [] \<and> (\<forall>x\<in>set w. x = 0) \<longrightarrow> normalize_audio w headroom = Inr w)"
  using normalize_audio_scaled_peak[of w headroom] normalize_audio_silent[of w headroom]
  by blast

theorem normalize_audio_peak_witness:
  "list_ex (\<lambda>x. x \<noteq> 0) [1, - 2 :: real]
   \<and> (\<exists>w'. normalize_audio [1, - 2] (9 / 10) = Inr w' \<and> length w' = 2
          \<and> Max (abs ` set w') = 9 / 10)
   \<and> [0, 0 :: real] \<noteq> [] \<and> list_all (\<lambda>x. x = 0) [0, 0 :: real]
   \<and> normalize_audio [0, 0] (9 / 10) = Inr [0, 0]"
proof -
  have a: "\<exists>x\<in>set [1, - 2 :: real]. x \<noteq> 0" by simp
  have b: "[0, 0 :: real] \<noteq> [] \<and> (\<forall>x\<in>set [0, 0 :: real]. x = 0)" by simp
  from normalize_audio_peak[of "[1, - 2]" "9 / 10"] a
  obtain w' where "normalize_audio [1, - 2] (9 / 10) = Inr w'"
    and "length w' = length [1, - 2 :: real]" and "Max (abs ` set w') = \<bar>9 / 10 :: real\<bar>"
    by blast
  then have "normalize_audio [1, - 2] (9 / 10) = Inr w' \<and> length w' = 2
      \<and> Max (abs ` set w') = 9 / 10" by simp
  then have c: "\<exists>w'. normalize_audio [1, - 2] (9 / 10) = Inr w' \<and> length w' = 2
      \<and> Max (abs ` set w') = 9 / 10" ..
  from normalize_audio_peak[of "[0, 0]" "9 / 10"] b
  have d: "normalize_audio [0, 0] (9 / 10) = Inr [0, 0]" by blast
  have e: "list_ex (\<lambda>x. x \<noteq> 0) [1, - 2 :: real]" by simp
  have f: "[0, 0 :: real] \<noteq> [] \<and> list_all (\<lambda>x. x = 0) [0, 0 :: real]" by simp
  from c d e f show ?thesis by blast
qed

text \<open>
  The claim as stated fails for a negative headroom (the peak of the result is
  \<open>1\<close>, not \<open>- 1\<close>) and for the empty buffer, which has no non-zero sample and
  on which \<^verbatim>\<open>np.max\<close> raises.
\<close>

theorem normalize_audio_peak_counterexample:
  "normalize_audio [1] (- 1) = Inr [- 1]
   \<and> Max (abs ` set [- 1 :: real]) \<noteq> - 1
   \<and> normalize_audio [] (9 / 10) = Inl ValueError"
  by (simp add: normalize_audio_def np_max_def)

subsection \<open>Waveform primitives: length and sampling times\<close>

lemma round_half_even_nonneg: "0 \<le> x \<Longrightarrow> 0 \<le> round_half_even x"
  by (simp add: round_half_even_def Let_def)

lemma fl_nonneg:
  assumes "0 \<le> x"
  shows "0 \<le> fl x"
proof (cases "x = 0")
  case True
  then show ?thesis by (simp add: fl_def)
next
  case False
  let ?q = "2 powi (max (float_exponent x) (- 1022) - 52) :: real"
  have q: "0 < ?q" by simp
  with assms have "0 \<le> x / ?q" by simp
  then have "0 \<le> round_half_even (x / ?q)" by (rule round_half_even_nonneg)
  with q False show ?thesis by (simp add: fl_def Let_def)
qed

lemma int_times_float_nonneg:
  assumes "int_times_float k x = Inr p" and "0 \<le> k" and "0 \<le> x"
  shows "0 \<le> p"
proof -
  from assms(1) have p: "p = fl (fl (real_of_int k) * x)"
    by (auto simp: int_times_float_def py_float_def float_mul_def bind_err_Inr Let_def
        split: if_splits)
  from assms(2) have "0 \<le> fl (real_of_int k)" by (intro fl_nonneg) simp
  with assms(3) have "0 \<le> fl (real_of_int k) * x" by (rule mult_nonneg_nonneg[rotated])
  then show ?thesis unfolding p by (rule fl_nonneg)
qed

text \<open>
  The sample count follows the product as it is rounded: for the double nearest
  to \<open>0.3\<close> and the rate 48000 the exact product is below \<open>14400\<close>, the computed
  one is \<open>14400\<close>.
\<close>

lemma sample_count_rounded:
  "real_of_int SAMPLE_RATE * (5404319552844595 / 18014398509481984) < 14400
   \<and> int_times_float SAMPLE_RATE (5404319552844595 / 18014398509481984) = Inr 14400
   \<and> py_int 14400 = Inr 14400"
  by code_simp

text \<open>
  C3. For every frequency, every positive duration and every positive sample rate
  (the module's 48000 among them), let \<open>p\<close> be the product
  \<open>sample_rate * duration\<close> as the program computes it in double precision, a
  finite number. Then \<^verbatim>\<open>generate_sine_wave\<close> and \<^verbatim>\<open>generate_triangle_wave\<close>
  return buffers of exactly \<open>N = \<lfloor>p\<rfloor>\<close> samples, and sample \<open>k\<close> is the
  oscillator at time \<open>k * duration / N\<close>, which lies in \<open>[0, duration)\<close>.
\<close>

theorem waveform_length_and_times:
  assumes "0 < duration" and "0 < sample_rate"
    and "int_times_float sample_rate duration = Inr p" and "float_finite p"
  shows "\<exists>s t. generate_sine_wave freq duration sample_rate = Inr s
     \<and> generate_triangle_wave freq duration sample_rate = Inr t
     \<and> length s = nat \<lfloor>p\<rfloor> \<and> length t = nat \<lfloor>p\<rfloor>
     \<and> (\<forall>k<nat \<lfloor>p\<rfloor>.
           0 \<le> real k * duration / real (nat \<lfloor>p\<rfloor>)
         \<and> real k * duration / real (nat \<lfloor>p\<rfloor>) < duration
         \<and> s ! k = sin (2 * pi * freq * (real k * duration / real (nat \<lfloor>p\<rfloor>)))
         \<and> t ! k = 2 * arcsin (sin (2 * pi * freq *
              (real k * duration / real (nat \<lfloor>p\<rfloor>)))) / pi)"
proof -
  let ?N = "nat \<lfloor>p\<rfloor>"
  from int_times_float_nonneg[OF assms(3)] assms(1,2) have p0: "0 \<le> p" by simp
  with py_int_finite[OF assms(4)] have num: "py_int p = Inr \<lfloor>p\<rfloor>"
    by (simp add: trunc_zero_floor)
  from p0 have num0: "0 \<le> \<lfloor>p\<rfloor>" by simp
  from linspace_Inr[OF num0] obtain ts where
    ts: "linspace 0 duration \<lfloor>p\<rfloor> False = Inr ts" and lts: "length ts = ?N" by blast
  have tk: "ts ! k = real k * duration / real ?N" if "k < ?N" for k
  proof -
    from that lts have "k < length ts" by simp
    from linspace_open_nth[OF ts this] have "ts ! k = real k * (duration / real_of_int \<lfloor>p\<rfloor>)"
      by simp
    moreover from num0 have "real_of_int \<lfloor>p\<rfloor> = real ?N" by simp
    ultimately show ?thesis by simp
  qed
  have bounds: "0 \<le> real k * duration / real ?N \<and> real k * duration / real ?N < duration"
    if "k < ?N" for k
  proof -
    from that have "0 < ?N" by linarith
    then have pos: "0 < real ?N" by (simp only: of_nat_0_less_iff)
    from that have lt: "real k < real ?N" by (simp only: of_nat_less_iff)
    from assms(1) have "0 \<le> real k * duration / real ?N" by simp
    moreover from lt assms(1) have "real k * duration < duration * real ?N"
      by (simp add: mult.commute)
    with pos have "real k * duration / real ?N < duration"
      by (simp add: pos_divide_less_eq)
    ultimately show ?thesis by simp
  qed
  let ?s = "map (\<lambda>x. sin (2 * pi * freq * x)) ts"
  let ?t = "map (\<lambda>x. 2 * arcsin (sin (2 * pi * freq * x)) / pi) ts"
  have "generate_sine_wave freq duration sample_rate = Inr ?s"
    and "generate_triangle_wave freq duration sample_rate = Inr ?t"
    using ts num assms(3)
    by (simp_all add: generate_sine_wave_def generate_triangle_wave_def bind_err_simps)
  moreover have "length ?s = ?N" and "length ?t = ?N" using lts by simp_all
  moreover have "\<forall>k<?N. 0 \<le> real k * duration / real ?N
         \<and> real k * duration / real ?N < duration
         \<and> ?s ! k = sin (2 * pi * freq * (real k * duration / real ?N))
         \<and> ?t ! k = 2 * arcsin (sin (2 * pi * freq * (real k * duration / real ?N))) / pi"
    using tk bounds lts by simp
  ultimately show ?thesis by blast
qed

theorem waveform_length_and_times_witness:
  "(0 :: real) < 1 / 16384 \<and> 0 < SAMPLE_RATE
   \<and> int_times_float SAMPLE_RATE (1 / 16384) = Inr (375 / 128)
   \<and> float_finite (375 / 128)
   \<and> (\<exists>s t. generate_sine_wave 432 (1 / 16384) SAMPLE_RATE = Inr s
     \<and> generate_triangle_wave 432 (1 / 16384) SAMPLE_RATE = Inr t
     \<and> length s = 2 \<and> length t = 2
     \<and> s ! 1 = sin (2 * pi * 432 * (1 * (1 / 16384) / 2))
     \<and> t ! 1 = 2 * arcsin (sin (2 * pi * 432 * (1 * (1 / 16384) / 2))) / pi)"
proof -
  have a: "(0 :: real) < 1 / 16384" by simp
  have b: "0 < SAMPLE_RATE" by (simp add: SAMPLE_RATE_def)
  have c: "int_times_float SAMPLE_RATE (1 / 16384) = Inr (375 / 128)" by code_simp
  have d: "float_finite (375 / 128)" by code_simp
  have n: "nat \<lfloor>375 / 128 :: real\<rfloor> = 2" by simp
  from waveform_length_and_times[OF a b c d, of 432] obtain s t where
    st: "generate_sine_wave 432 (1 / 16384) SAMPLE_RATE = Inr s"
      "generate_triangle_wave 432 (1 / 16384) SAMPLE_RATE = Inr t"
      "length s = 2" "length t = 2"
      "\<forall>k<2. s ! k = sin (2 * pi * 432 * (real k * (1 / 16384) / real (2 :: nat)))
           \<and> t ! k = 2 * arcsin (sin (2 * pi * 432 * (real k * (1 / 16384) / real (2 :: nat)))) / pi"
    unfolding n by blast
  from st(5) have "s ! 1 = sin (2 * pi * 432 * (1 * (1 / 16384) / 2))
      \<and> t ! 1 = 2 * arcsin (sin (2 * pi * 432 * (1 * (1 / 16384) / 2))) / pi"
    by simp
  with st(1-4) a b c d show ?thesis by blast
qed

subsection \<open>In-place and allocating operations\<close>

text \<open>
  C6, as the code has it. \<^verbatim>\<open>apply_fade\<close> works in place: when it returns, it
  returns its argument, and the caller's buffer holds the faded samples.
  \<^verbatim>\<open>apply_envelope\<close> does not: when it returns, the result is a newly allocated
  buffer that holds the enveloped samples, and the caller's buffer holds what it
  held before the call.
\<close>

theorem shaping_in_place:
  "(fst (apply_fade_heap h r fade_duration sample_rate) = Inr r1 \<longrightarrow>
      r1 = r
      \<and> apply_fade (cells h r) fade_duration sample_rate
          = Inr (cells (snd (apply_fade_heap h r fade_duration sample_rate)) r))
   \<and> (r < next_ref h \<and> fst (apply_envelope_heap h r attack release sample_rate) = Inr r2 \<longrightarrow>
      r2 = next_ref h \<and> r2 \<noteq> r
      \<and> cells (snd (apply_envelope_heap h r attack release sample_rate)) r = cells h r
      \<and> apply_envelope (cells h r) attack release sample_rate
          = Inr (cells (snd (apply_envelope_heap h r attack release sample_rate)) r2))"
proof (intro conjI impI)
  assume a: "fst (apply_fade_heap h r fade_duration sample_rate) = Inr r1"
  then show "r1 = r"
    by (auto simp: apply_fade_heap_eq split: sum.splits)
  from a show "apply_fade (cells h r) fade_duration sample_rate
      = Inr (cells (snd (apply_fade_heap h r fade_duration sample_rate)) r)"
    by (auto simp: apply_fade_heap_eq cells_store split: sum.splits)
next
  assume b: "r < next_ref h \<and> fst (apply_envelope_heap h r attack release sample_rate) = Inr r2"
  then obtain w' where w': "apply_envelope (cells h r) attack release sample_rate = Inr w'"
    by (cases "apply_envelope (cells h r) attack release sample_rate")
      (simp_all add: apply_envelope_heap_Inl)
  from b show "r2 = next_ref h" by (simp add: apply_envelope_heap_Inr[OF w'])
  from b show "r2 \<noteq> r" by (auto simp: apply_envelope_heap_Inr[OF w'])
  from b show "cells (snd (apply_envelope_heap h r attack release sample_rate)) r = cells h r"
    by (simp add: apply_envelope_heap_leaves)
  from b show "apply_envelope (cells h r) attack release sample_rate
      = Inr (cells (snd (apply_envelope_heap h r attack release sample_rate)) r2)"
    by (auto simp: apply_envelope_heap_Inr[OF w'] w')
qed

theorem shaping_in_place_witness:
  "fst (apply_fade_heap \<lparr>cells = (\<lambda>_. [])(0 := [1, 1, 1, 1]), next_ref = 1\<rparr> 0 1 2) = Inr 0
   \<and> apply_fade [1, 1, 1, 1] 1 2
       = Inr (cells (snd (apply_fade_heap \<lparr>cells = (\<lambda>_. [])(0 := [1, 1, 1, 1]), next_ref = 1\<rparr> 0 1 2)) 0)
   \<and> 0 < next_ref \<lparr>cells = (\<lambda>_. [])(0 := [1, 1, 1, 1]), next_ref = 1\<rparr>
   \<and> fst (apply_envelope_heap \<lparr>cells = (\<lambda>_. [])(0 := [1, 1, 1, 1]), next_ref = 1\<rparr> 0 1 1 2) = Inr 1
   \<and> cells (snd (apply_envelope_heap \<lparr>cells = (\<lambda>_. [])(0 := [1, 1, 1, 1]), next_ref = 1\<rparr> 0 1 1 2)) 0
       = [1, 1, 1, 1]
   \<and> apply_envelope [1, 1, 1, 1] 1 1 2
       = Inr (cells (snd (apply_envelope_heap \<lparr>cells = (\<lambda>_. [])(0 := [1, 1, 1, 1]), next_ref = 1\<rparr> 0 1 1 2)) 1)"
proof -
  let ?h = "\<lparr>cells = (\<lambda>_. [])(0 := [1, 1, 1, 1 :: real]), next_ref = 1\<rparr>"
  have f: "apply_fade [1, 1, 1, 1] 1 2 = Inr [0, 1, 1, 0]" by code_simp
  have e: "apply_envelope [1, 1, 1, 1] 1 1 2 = Inr [0, 1, 1, 0]" by code_simp
  have a: "fst (apply_fade_heap ?h 0 1 2) = Inr 0"
    by (simp add: apply_fade_heap_eq f)
  have b: "fst (apply_envelope_heap ?h 0 1 1 2) = Inr 1"
    by (simp add: apply_envelope_heap_def alloc_def e)
  from shaping_in_place[of ?h 0 1 2 0 1 1 1] a b show ?thesis by simp
qed

text \<open>
  The claim as stated fails for \<^verbatim>\<open>apply_envelope\<close>: on a buffer of four ones with
  an attack and a release of two samples each, the enveloped samples \<open>0, 1, 1, 0\<close>
  are in the new buffer, and the caller's buffer still holds the four ones.
\<close>

theorem apply_envelope_in_place_counterexample:
  "fst (apply_envelope_heap \<lparr>cells = (\<lambda>_. [])(0 := [1, 1, 1, 1]), next_ref = 1\<rparr> 0 1 1 2) = Inr 1
   \<and> cells (snd (apply_envelope_heap \<lparr>cells = (\<lambda>_. [])(0 := [1, 1, 1, 1]), next_ref = 1\<rparr> 0 1 1 2)) 1
       = [0, 1, 1, 0]
   \<and> cells (snd (apply_envelope_heap \<lparr>cells = (\<lambda>_. [])(0 := [1, 1, 1, 1]), next_ref = 1\<rparr> 0 1 1 2)) 0
       = [1, 1, 1, 1]
   \<and> cells (snd (apply_envelope_heap \<lparr>cells = (\<lambda>_. [])(0 := [1, 1, 1, 1]), next_ref = 1\<rparr> 0 1 1 2)) 0
       \<noteq> [0, 1, 1, 0]"
proof -
  have e: "apply_envelope [1, 1, 1, 1] 1 1 2 = Inr [0, 1, 1, 0]" by code_simp
  show ?thesis by (simp add: apply_envelope_heap_def alloc_def e)
qed

subsection \<open>The PCM round trip\<close>



lemma sint_word16_wraps:
  "sint (word_of_int k :: 16 word) = (k + 32768) mod 65536 - 32768"
  by (simp add: sint_sbintrunc' signed_take_bit_eq_take_bit_shift take_bit_eq_mod)

lemma sint_astype_int16:
  "sint (astype_int16 x) =
     (let k = trunc_zero x
      in if - (2 ^ 31) \<le> k \<and> k < 2 ^ 31 then (k + 32768) mod 65536 - 32768 else 0)"
  by (simp add: astype_int16_def Let_def sint_word16_wraps)

lemma trunc_zero_in_range:
  assumes "\<bar>x\<bar> < 32768"
  shows "- 32768 < trunc_zero x \<and> trunc_zero x < 32768"
proof (cases "0 \<le> x")
  case True
  with assms have "\<lfloor>x\<rfloor> < 32768" and "0 \<le> \<lfloor>x\<rfloor>" by linarith+
  with True show ?thesis by (simp add: trunc_zero_def)
next
  case False
  with assms have "- 32768 < \<lceil>x\<rceil>" and "\<lceil>x\<rceil> \<le> 0" by linarith+
  with False show ?thesis by (simp add: trunc_zero_def)
qed

lemma sint_astype_int16_in_range:
  assumes "\<bar>x\<bar> < 32768"
  shows "sint (astype_int16 x) = trunc_zero x"
proof -
  from trunc_zero_in_range[OF assms] have r: "- 32768 < trunc_zero x" "trunc_zero x < 32768"
    by simp_all
  then have "(trunc_zero x + 32768) mod 65536 = trunc_zero x + 32768" by simp
  with r show ?thesis by (simp add: sint_astype_int16 Let_def)
qed

text \<open>
  The stored sample follows the product as it is rounded: for the double nearest
  to \<open>1 / 32767\<close> the exact product with \<open>32767\<close> is below \<open>1\<close>, the computed one
  is \<open>1\<close>, and the sample is stored as \<open>1\<close>.
\<close>

lemma pcm_rounded_product:
  "35185445863425 / 1152921504606846976 * (32767 :: real) < 1
   \<and> float_mul (35185445863425 / 1152921504606846976) 32767 = 1
   \<and> sint (astype_int16 (float_mul (35185445863425 / 1152921504606846976) 32767)) = 1"
proof -
  have a: "35185445863425 / 1152921504606846976 * (32767 :: real) < 1" by simp
  have b: "float_mul (35185445863425 / 1152921504606846976) 32767 = 1" by code_simp
  have "sint (astype_int16 1) = 1" by (simp add: sint_astype_int16_in_range trunc_zero_def)
  with a b show ?thesis by simp
qed




subsection \<open>The texture generator\<close>

lemma texture_tone_cong:
  assumes "rng1 (4 * i) = rng2 (4 * i)" and "rng1 (4 * i + 3) = rng2 (4 * i + 3)"
  shows "texture_tone duration rng1 i = texture_tone duration rng2 i"
  using assms by (simp add: texture_tone_def Let_def)

lemma texture_tones_cong:
  assumes "\<forall>i\<in>set idx. texture_tone duration rng1 i = texture_tone duration rng2 i"
  shows "texture_tones duration rng1 idx = texture_tones duration rng2 idx"
  using assms by (induction idx) simp_all

lemma generate_sine_wave_length:
  assumes "generate_sine_wave freq duration sr = Inr s"
  shows "\<exists>p. int_times_float sr duration = Inr p \<and> py_int p = Inr (int (length s))"
proof -
  from assms obtain p num t where p: "int_times_float sr duration = Inr p"
    and num: "py_int p = Inr num"
    and t: "linspace 0 duration num False = Inr t"
    and s: "s = map (\<lambda>x. sin (2 * pi * freq * x)) t"
    by (auto simp: generate_sine_wave_def bind_err_Inr)
  from linspace_length[OF t] s have "num = int (length s)" by simp
  with p num show ?thesis by blast
qed

lemma texture_tone_length:
  assumes "texture_tone duration rng i = Inr tone"
  shows "\<exists>p. int_times_float SAMPLE_RATE duration = Inr p
    \<and> py_int p = Inr (int (length tone))"
proof -
  let ?freq = "uniform 200 800 (rng (4 * i))"
  from assms obtain s e where
    s: "generate_sine_wave ?freq duration SAMPLE_RATE = Inr s" and
    e: "apply_envelope s (3 / 10) (3 / 10) SAMPLE_RATE = Inr e" and
    tone: "tone = map (\<lambda>x. x * uniform (1 / 2) 1 (rng (4 * i + 3))) e"
    by (auto simp: texture_tone_def bind_err_def Let_def split: sum.splits)
  from apply_envelope_length[OF e] tone have "length tone = length s" by simp
  with generate_sine_wave_length[OF s] show ?thesis by simp
qed

text \<open>
  C7. Two runs of \<^verbatim>\<open>generate_texture_loop\<close> whose random sources agree on the
  frequency draw and on the pan draw of each of the five tones return the same
  outcome, whatever the draws for \<^verbatim>\<open>tone_duration\<close> and \<^verbatim>\<open>tone_start\<close> are; and
  every tone that the loop body produces has the full length
  \<^verbatim>\<open>int(SAMPLE_RATE * duration)\<close>, the product being the one computed in double
  precision.
\<close>

theorem texture_ignores_tone_window:
  assumes "\<forall>i<5. rng1 (4 * i) = rng2 (4 * i) \<and> rng1 (4 * i + 3) = rng2 (4 * i + 3)"
  shows "generate_texture_loop duration rng1 = generate_texture_loop duration rng2
    \<and> (\<forall>i tone. texture_tone duration rng1 i = Inr tone \<longrightarrow>
          (\<exists>p. int_times_float SAMPLE_RATE duration = Inr p
             \<and> py_int p = Inr (int (length tone))))"
proof
  have "\<forall>i\<in>set [0..<5]. texture_tone duration rng1 i = texture_tone duration rng2 i"
    using assms by (auto intro: texture_tone_cong)
  from texture_tones_cong[OF this]
  show "generate_texture_loop duration rng1 = generate_texture_loop duration rng2"
    by (simp add: generate_texture_loop_def Let_def)
next
  show "\<forall>i tone. texture_tone duration rng1 i = Inr tone \<longrightarrow>
          (\<exists>p. int_times_float SAMPLE_RATE duration = Inr p
             \<and> py_int p = Inr (int (length tone)))"
    by (intro allI impI) (rule texture_tone_length)
qed

theorem texture_ignores_tone_window_witness:
  "list_all (\<lambda>i. (\<lambda>k. 1 / 2 :: real) (4 * i)
                    = (\<lambda>k. if k mod 4 = 1 \<or> k mod 4 = 2 then 1 / 4 else 1 / 2) (4 * i)
                \<and> (\<lambda>k. 1 / 2 :: real) (4 * i + 3)
                    = (\<lambda>k. if k mod 4 = 1 \<or> k mod 4 = 2 then 1 / 4 else 1 / 2) (4 * i + 3))
     [0..<5]
   \<and> (\<lambda>k. 1 / 2 :: real) (1 :: nat)
       \<noteq> (\<lambda>k. if k mod 4 = 1 \<or> k mod 4 = 2 then 1 / 4 else 1 / 2) (1 :: nat)
   \<and> generate_texture_loop 4 (\<lambda>k. 1 / 2)
       = generate_texture_loop 4 (\<lambda>k. if k mod 4 = 1 \<or> k mod 4 = 2 then 1 / 4 else 1 / 2)"
proof -
  let ?r1 = "\<lambda>k :: nat. 1 / 2 :: real"
  let ?r2 = "\<lambda>k :: nat. if k mod 4 = 1 \<or> k mod 4 = 2 then 1 / 4 else 1 / 2 :: real"
  have m: "(4 * i + 3) mod 4 = (3 :: nat)" for i :: nat by presburger
  have a: "\<forall>i<5. ?r1 (4 * i) = ?r2 (4 * i) \<and> ?r1 (4 * i + 3) = ?r2 (4 * i + 3)"
    by (simp add: m)
  then have b: "list_all (\<lambda>i. ?r1 (4 * i) = ?r2 (4 * i) \<and> ?r1 (4 * i + 3) = ?r2 (4 * i + 3)) [0..<5]"
    by (simp add: list_all_iff)
  have c: "?r1 1 \<noteq> ?r2 1" by simp
  from texture_ignores_tone_window[OF a, of 4]
  have "generate_texture_loop 4 ?r1 = generate_texture_loop 4 ?r2" by blast
  with b c show ?thesis by blast
qed

subsection \<open>The breath generator\<close>

lemma mask_fill_length: "length (mask_fill a ms vs) = length a"
  by (induction a ms vs rule: mask_fill.induct) simp_all

lemma mask_fill_unselected:
  "i < length a \<Longrightarrow> i < length ms \<Longrightarrow> \<not> ms ! i \<Longrightarrow> mask_fill a ms vs ! i = a ! i"
proof (induction a ms vs arbitrary: i rule: mask_fill.induct)
  case (3 x xs ms)
  then show ?case by (cases i) simp_all
next
  case (4 x xs ms v vs)
  then show ?case by (cases i) simp_all
next
  case (5 x xs ms vs)
  then show ?case by (cases i) simp_all
qed simp_all

lemma mask_assign_counted:
  assumes "length ms = length a" and "length vs = length (filter id ms)"
  shows "mask_assign a ms vs = Inr (mask_fill a ms vs)"
  using assms by (simp add: mask_assign_def broadcast_to_def)

lemma linspace_mask_count:
  "\<exists>vs. linspace start stop (np_sum_mask ms) True = Inr vs \<and> length vs = length (filter id ms)"
proof -
  have "0 \<le> np_sum_mask ms" by (simp add: np_sum_mask_def)
  from linspace_Inr[OF this] show ?thesis by (simp add: np_sum_mask_def)
qed

lemma np_mul_same_length:
  "length a = length b \<Longrightarrow> np_mul a b = Inr (map2 (*) a b)"
  by (simp add: np_mul_def)

text \<open>
  The breath generator at a duration for which the sample count is at least the
  one-second fade: it returns, and every index at which the carrier or the
  breath shape is zero holds zero in the result.
\<close>

lemma generate_breath_loop_zero:
  assumes p: "int_times_float SAMPLE_RATE duration = Inr p"
    and num: "py_int p = Inr (int n)" and n: "48000 \<le> n"
    and t: "linspace 0 duration (int n) False = Inr t"
    and i: "i < n"
    and z: "sin (2 * pi * 216 * t ! i) = 0 \<or> (\<not> t ! i < 4 \<and> \<not> (4 \<le> t ! i \<and> t ! i < 10))"
  shows "\<exists>w. generate_breath_loop duration = Inr w \<and> length w = n \<and> w ! i = 0"
proof -
  from linspace_length[OF t] have lt: "length t = n" by simp
  let ?b0 = "replicate (length t) (0 :: real)"
  let ?im = "map (\<lambda>x. x < 4) t" and ?em = "map (\<lambda>x. 4 \<le> x \<and> x < 10) t"
  from linspace_mask_count obtain rise where
    rise: "linspace 0 (1 / 2) (np_sum_mask ?im) True = Inr rise"
      "length rise = length (filter id ?im)" by blast
  let ?s1 = "mask_fill ?b0 ?im rise"
  have s1: "mask_assign ?b0 ?im rise = Inr ?s1"
    by (rule mask_assign_counted) (simp_all add: rise(2))
  from linspace_mask_count obtain fall where
    fall: "linspace (1 / 2) 0 (np_sum_mask ?em) True = Inr fall"
      "length fall = length (filter id ?em)" by blast
  let ?s2 = "mask_fill ?s1 ?em fall"
  have s2: "mask_assign ?s1 ?em fall = Inr ?s2"
    by (rule mask_assign_counted) (simp_all add: fall(2) mask_fill_length)
  have ls2: "length ?s2 = n" by (simp add: mask_fill_length lt)
  let ?c = "map (\<lambda>x. sin (2 * pi * 216 * x)) t"
  have c: "generate_sine_wave 216 duration SAMPLE_RATE = Inr ?c"
    by (simp add: generate_sine_wave_def p num t bind_err_simps)
  let ?m = "map2 (*) ?c ?s2"
  have m: "np_mul ?c ?s2 = Inr ?m"
    by (rule np_mul_same_length) (simp add: mask_fill_length)
  have lm: "length ?m = n" by (simp add: mask_fill_length lt)
  have fp: "float_times_int 1 SAMPLE_RATE = Inr 48000" by code_simp
  have fs: "py_int 48000 = Inr 48000" by code_simp
  have "(0 :: int) < 48000" by simp
  moreover from n have "48000 \<le> int (length ?m)" unfolding lm by simp
  ultimately have "\<exists>f. apply_fade_with ?m 48000 = Inr f" by (rule apply_fade_with_Inr)
  then obtain f where "apply_fade_with ?m 48000 = Inr f" ..
  with apply_fade_count[OF fp fs] have f: "apply_fade ?m 1 SAMPLE_RATE = Inr f" by simp
  from apply_fade_length[OF f] lm have lf: "length f = n" by simp
  with n have "f \<noteq> []" by auto
  from normalize_audio_Inr[OF this] obtain w where w: "normalize_audio f (4 / 10) = Inr w" ..
  from normalize_audio_length[OF w] lf have lw: "length w = n" by simp
  have mz: "?m ! i = 0"
  proof -
    from i lt ls2 have "?m ! i = ?c ! i * ?s2 ! i" by simp
    moreover from z have "?c ! i * ?s2 ! i = 0"
    proof
      assume "sin (2 * pi * 216 * t ! i) = 0"
      with i lt show ?thesis by simp
    next
      assume out: "\<not> t ! i < 4 \<and> \<not> (4 \<le> t ! i \<and> t ! i < 10)"
      with i lt have "?s2 ! i = ?s1 ! i"
        by (intro mask_fill_unselected) (simp_all add: mask_fill_length)
      also from out i lt have "\<dots> = ?b0 ! i"
        by (intro mask_fill_unselected) simp_all
      also from i lt have "\<dots> = 0" by simp
      finally show ?thesis by simp
    qed
    ultimately show ?thesis by simp
  qed
  from i lm have im: "i < length ?m" by (simp only:)
  have fz: "f ! i = 0" by (rule apply_fade_zero[OF f im mz])
  from i lf have "i < length f" by simp
  from normalize_audio_zero[OF w this fz] have "w ! i = 0" .
  moreover have "generate_breath_loop duration = Inr w"
    using rise(1) s1 fall(1) s2 c m f w
    by (simp add: generate_breath_loop_def bind_err_simps Let_def p num t)
  ultimately show ?thesis using lw by blast
qed

text \<open>
  C8. \<^verbatim>\<open>generate_breath_loop(11.0)\<close> returns a buffer of 528000 samples whose
  first sample is \<open>0\<close> and whose sample at index
  \<open>504000 = \<lfloor>10.5 * 48000\<rfloor>\<close>, the time \<open>10.5\<close> in the pause phase, is \<open>0\<close>.
\<close>

theorem breath_loop_zero_samples:
  "\<exists>w. generate_breath_loop 11 = Inr w \<and> length w = 528000
      \<and> w ! 0 = 0 \<and> w ! nat \<lfloor>(21 / 2) * real_of_int SAMPLE_RATE\<rfloor> = 0"
proof -
  have p: "int_times_float SAMPLE_RATE 11 = Inr 528000" by code_simp
  have "py_int 528000 = Inr 528000" by code_simp
  then have num: "py_int 528000 = Inr (int 528000)" by simp
  have n: "(48000 :: nat) \<le> 528000" by simp
  from linspace_Inr[of "int 528000" 0 11 False] obtain t where
    t: "linspace 0 11 (int 528000) False = Inr t" and lt: "length t = 528000" by auto
  have tk: "t ! k = real k * (11 / 528000)" if "k < 528000" for k
    using linspace_open_nth[OF t, of k] that lt by simp
  have idx: "nat \<lfloor>(21 / 2) * real_of_int SAMPLE_RATE\<rfloor> = 504000"
    by (simp add: SAMPLE_RATE_def)
  have "sin (2 * pi * 216 * t ! 0) = 0" using tk[of 0] by simp
  from generate_breath_loop_zero[OF p num n t _ disjI1, OF _ this] obtain w0 where
    w0: "generate_breath_loop 11 = Inr w0" "length w0 = 528000" "w0 ! 0 = 0" by auto
  have "t ! 504000 = 21 / 2" using tk[of 504000] by simp
  then have "\<not> t ! 504000 < 4 \<and> \<not> (4 \<le> t ! 504000 \<and> t ! 504000 < 10)" by simp
  from generate_breath_loop_zero[OF p num n t _ disjI2, OF _ this] obtain w1 where
    w1: "generate_breath_loop 11 = Inr w1" "w1 ! 504000 = 0" by auto
  from w0 w1 have "w0 ! 504000 = 0" by simp
  with w0 idx show ?thesis by simp
qed

end
